theory Spec2Isabelle
  imports Main "HOL-Library.Word"
begin

unbundle bit_operations_syntax

section \<open>Data model of the buffer queue (libs/gui)\<close>

text \<open>
  \<open>status_t\<close>: the status codes the two source files return or test.
  \<open>NO_INIT\<close> is the code the specification calls \<open>NOT_INITIALIZED\<close>, \<open>NO_ERROR\<close> the one
  it calls \<open>OK\<close>. \<open>TIMED_OUT\<close> is what a timed condition wait returns when nobody
  signalled it.
\<close>

datatype status_t =
    NO_ERROR
  | BAD_VALUE
  | INVALID_OPERATION
  | NO_INIT
  | NO_MEMORY
  | STALE_BUFFER_SLOT
  | NO_BUFFER_AVAILABLE
  | PRESENT_LATER
  | TIMED_OUT

text \<open>
  Modelled from the spec: the declaration of \<open>BufferSlot::BufferState\<close> is not among the
  sources; the specification lists the states FREE, DEQUEUED, QUEUED, ACQUIRED, SHARED.
\<close>

datatype BufferState = FREE | DEQUEUED | QUEUED | ACQUIRED | SHARED

text \<open>
  \<open>nsecs_t\<close> is \<open>int64_t\<close>: a 64-bit word read as two's complement (\<open><s\<close>, \<open>\<le>s\<close>), whose
  \<open>+\<close> and \<open>-\<close> wrap. Frame numbers are \<open>uint64_t\<close>: a 64-bit word compared unsigned.
  Slot indices and counts are the source's \<open>int\<close>, modelled as \<open>int\<close>.
\<close>

type_synonym nsecs_t = "64 word"
type_synonym uint64_t = "64 word"
type_synonym uint32_t = "32 word"

text \<open>
  A \<open>GraphicBuffer\<close> is known to this code by its native handle and its generation number;
  \<open>sp<GraphicBuffer>\<close> is an option, \<open>None\<close> being the null pointer.
\<close>

record GraphicBuffer =
  handle :: nat
  generationNumber :: uint32_t

text \<open>\<open>sp<Fence>\<close>: \<open>None\<close> is null, \<open>Some NO_FENCE\<close> the shared already-signalled fence.\<close>

datatype Fence = NO_FENCE | FenceFd nat

text \<open>Listeners, EGL displays and EGL syncs are opaque references.\<close>

type_synonym listener = nat
type_synonym EGLDisplay = nat
type_synonym EGLSyncKHR = nat

record BufferSlot =
  mGraphicBuffer :: "GraphicBuffer option"
  mEglDisplay :: EGLDisplay
  mBufferState :: BufferState
  mFrameNumber :: uint64_t
  mEglFence :: EGLSyncKHR
  mFence :: "Fence option"
  mAcquireCalled :: bool
  mNeedsCleanupOnRelease :: bool
  mAttachedByConsumer :: bool

text \<open>
  A \<open>BufferItem\<close> is one entry of the frame queue. Its fields carry the prefix \<open>item_\<close>,
  since four of them share their names with fields of \<open>BufferSlot\<close>.
\<close>

record BufferItem =
  item_mGraphicBuffer :: "GraphicBuffer option"
  item_mFence :: "Fence option"
  item_mTimestamp :: nsecs_t
  item_mIsAutoTimestamp :: bool
  item_mFrameNumber :: uint64_t
  item_mSlot :: int
  item_mIsDroppable :: bool
  item_mAcquireCalled :: bool

text \<open>
  \<open>BufferQueueCore\<close>: the slot array, the queue, the two free collections
  (\<open>mFreeSlots\<close> is a \<open>std::set<int>\<close>, held as the list of its elements in iteration
  order, so that \<open>begin()\<close> is the head; \<open>mFreeBuffers\<close> is a \<open>std::list<int>\<close>) and the
  connection and configuration state that the consumer endpoint reads or writes.
\<close>

record BufferQueueCore =
  mSlots :: "BufferSlot list"
  mQueue :: "BufferItem list"
  mFreeSlots :: "int list"
  mFreeBuffers :: "int list"
  mConnectedProducerListener :: "listener option"
  mConsumerListener :: "listener option"
  mConsumerControlledByApp :: bool
  mIsAbandoned :: bool
  mMaxAcquiredBufferCount :: int
  mGenerationNumber :: uint32_t
  mConnectedApi :: int
  mUseAsyncBuffer :: bool
  mDefaultWidth :: uint32_t
  mDefaultHeight :: uint32_t
  mDefaultBufferFormat :: int
  mDefaultBufferDataSpace :: int
  mConsumerUsageBits :: uint32_t
  mTransformHint :: uint32_t
  mConsumerName :: string

text \<open>
  Modelled from the spec: \<open>BufferQueueDefs::NUM_BUFFER_SLOTS\<close> is declared in a header
  that is not among the sources; the specification fixes the slot count at 64.
\<close>

definition NUM_BUFFER_SLOTS :: nat where
  "NUM_BUFFER_SLOTS = 64"

text \<open>
  Modelled from the spec: \<open>BufferQueueCore::INVALID_BUFFER_SLOT\<close>, \<open>NO_CONNECTED_API\<close> and
  \<open>MAX_MAX_ACQUIRED_BUFFERS\<close> are constants of the missing header of the core. The first
  only has to differ from every slot index, the second is the "no producer" value of the
  connected API, the third is "typically equal to the slot count".
\<close>

definition INVALID_BUFFER_SLOT :: int where
  "INVALID_BUFFER_SLOT = -1"

definition NO_CONNECTED_API :: int where
  "NO_CONNECTED_API = 0"

definition MAX_MAX_ACQUIRED_BUFFERS :: int where
  "MAX_MAX_ACQUIRED_BUFFERS = 64"

text \<open>
  Modelled from the spec: \<open>BufferQueueCore::stillTracking\<close> is defined in
  BufferQueueCore.cpp, which is not among the sources. The specification describes it as
  "the front's slot is still tracked (present in SlotTable, same buffer)": the entry's slot
  index lies in the table, the slot holds a buffer, and it is the entry's buffer.
\<close>

definition stillTracking :: "BufferQueueCore \<Rightarrow> BufferItem \<Rightarrow> bool" where
  "stillTracking c item =
     (0 \<le> item_mSlot item \<and> item_mSlot item < int NUM_BUFFER_SLOTS \<and>
      nat (item_mSlot item) < length (mSlots c) \<and>
      (case mGraphicBuffer (mSlots c ! nat (item_mSlot item)) of
         None \<Rightarrow> False
       | Some sb \<Rightarrow>
           (case item_mGraphicBuffer item of
              None \<Rightarrow> False
            | Some ib \<Rightarrow> handle ib = handle sb)))"

text \<open>
  What a call does besides returning: taking and leaving the core's mutex, broadcasting the
  dequeue condition, and calling the producer's listener. A call's events are listed in the
  order in which the source performs them.
\<close>

datatype event =
    MutexLock
  | MutexUnlock
  | DequeueConditionBroadcast
  | OnBufferReleased listener

section \<open>BufferQueueConsumer::acquireBuffer\<close>

text \<open>The counting loop at the head of \<open>acquireBuffer\<close> and \<open>attachBuffer\<close>.\<close>

definition numAcquiredBuffers :: "BufferQueueCore \<Rightarrow> int" where
  "numAcquiredBuffers c =
     int (length (filter (\<lambda>s. mBufferState (mSlots c ! s) = ACQUIRED) [0..<NUM_BUFFER_SLOTS]))"

definition MAX_REASONABLE_NSEC :: nsecs_t where
  "MAX_REASONABLE_NSEC = 1000000000"

text \<open>
  One drop (the body of the loop after both \<open>break\<close>s): a front entry that is still
  tracked has its slot marked FREE and pushed onto \<open>mFreeBuffers\<close>, the listener is captured
  and the drop counted; in either case the front entry is erased.
\<close>

definition dropFront ::
  "BufferQueueCore \<times> listener option \<times> nat \<Rightarrow> BufferQueueCore \<times> listener option \<times> nat" where
  "dropFront = (\<lambda>(c, listener, numDroppedBuffers).
     (if stillTracking c (hd (mQueue c)) then
        (c\<lparr>mSlots := (mSlots c)[nat (item_mSlot (hd (mQueue c))) :=
                       (mSlots c ! nat (item_mSlot (hd (mQueue c))))\<lparr>mBufferState := FREE\<rparr>],
           mFreeBuffers := mFreeBuffers c @ [item_mSlot (hd (mQueue c))],
           mQueue := tl (mQueue c)\<rparr>,
         mConnectedProducerListener c,
         numDroppedBuffers + 1)
      else (c\<lparr>mQueue := tl (mQueue c)\<rparr>, listener, numDroppedBuffers)))"

text \<open>
  The \<open>while\<close> loop of lines 97 to 141, with the source's two \<open>break\<close>s in the source's order.
  The state threaded through it is the core, the captured listener and \<open>numDroppedBuffers\<close>.
\<close>

function dropLoop ::
  "nsecs_t \<Rightarrow> uint64_t \<Rightarrow> BufferQueueCore \<times> listener option \<times> nat
     \<Rightarrow> BufferQueueCore \<times> listener option \<times> nat" where
  "dropLoop expectedPresent maxFrameNumber st =
     (if length (mQueue (fst st)) > 1 \<and> \<not> item_mIsAutoTimestamp (mQueue (fst st) ! 0) then
        (if maxFrameNumber \<noteq> 0 \<and> item_mFrameNumber (mQueue (fst st) ! 1) > maxFrameNumber
         then st
         else if item_mTimestamp (mQueue (fst st) ! 1) <s expectedPresent - MAX_REASONABLE_NSEC
                 \<or> expectedPresent <s item_mTimestamp (mQueue (fst st) ! 1)
         then st
         else dropLoop expectedPresent maxFrameNumber (dropFront st))
      else st)"
  by pat_completeness auto
termination
  by (relation "measure (\<lambda>(e, m, st). length (mQueue (fst st)))")
     (auto simp: dropFront_def split: prod.splits)

declare dropLoop.simps [simp del]

text \<open>The two local booleans of the timing check, lines 144 to 148.\<close>

definition bufferIsDue :: "nsecs_t \<Rightarrow> nsecs_t \<Rightarrow> bool" where
  "bufferIsDue desiredPresent expectedPresent =
     (desiredPresent \<le>s expectedPresent \<or>
      expectedPresent + MAX_REASONABLE_NSEC <s desiredPresent)"

definition consumerIsReady :: "uint64_t \<Rightarrow> uint64_t \<Rightarrow> bool" where
  "consumerIsReady frameNumber maxFrameNumber =
     (if maxFrameNumber > 0 then frameNumber \<le> maxFrameNumber else True)"

record AcquireResult =
  ar_status :: status_t
  ar_core :: BufferQueueCore
  ar_outBuffer :: "BufferItem option"
  ar_events :: "event list"

text \<open>
  Lines 166 to 205: the front entry is copied out, its slot (when still tracked) becomes
  ACQUIRED, the copy loses its buffer when the entry's \<open>mAcquireCalled\<close> is set, the entry is
  erased, the dequeue condition is broadcast, the lock scope ends, and then the captured
  listener, when there is one, is called \<open>numDroppedBuffers\<close> times.
\<close>

definition acquireFront ::
  "BufferQueueCore \<Rightarrow> listener option \<Rightarrow> nat \<Rightarrow> AcquireResult" where
  "acquireFront c listener numDroppedBuffers =
     (let front = hd (mQueue c);
          slot = item_mSlot front;
          slots' = (if stillTracking c front then
                      (mSlots c)[nat slot := (mSlots c ! nat slot)
                         \<lparr>mBufferState := ACQUIRED,
                          mFence := Some NO_FENCE,
                          mAcquireCalled := True,
                          mNeedsCleanupOnRelease := False\<rparr>]
                    else mSlots c);
          outBuffer = (if item_mAcquireCalled front
                       then front\<lparr>item_mGraphicBuffer := None\<rparr> else front)
      in \<lparr>ar_status = NO_ERROR,
          ar_core = c\<lparr>mSlots := slots', mQueue := tl (mQueue c)\<rparr>,
          ar_outBuffer = Some outBuffer,
          ar_events = [MutexLock, DequeueConditionBroadcast, MutexUnlock] @
            (case listener of
               None \<Rightarrow> []
             | Some l \<Rightarrow> replicate numDroppedBuffers (OnBufferReleased l))\<rparr>)"

text \<open>An early \<open>return\<close> from inside the lock scope: no output, no callback.\<close>

definition acquireFail :: "status_t \<Rightarrow> BufferQueueCore \<Rightarrow> AcquireResult" where
  "acquireFail st c =
     \<lparr>ar_status = st, ar_core = c, ar_outBuffer = None, ar_events = [MutexLock, MutexUnlock]\<rparr>"

text \<open>
  The drop loop runs only when \<open>expectedPresent\<close> is not 0 (line 75). \<open>front\<close> is the head of
  the queue; the queue is not empty where it is read, since the loop erases an entry only
  when there are at least two.
\<close>

definition dropPhase ::
  "BufferQueueCore \<Rightarrow> nsecs_t \<Rightarrow> uint64_t \<Rightarrow> BufferQueueCore \<times> listener option \<times> nat" where
  "dropPhase c expectedPresent maxFrameNumber =
     (if expectedPresent \<noteq> 0 then dropLoop expectedPresent maxFrameNumber (c, None, 0)
      else (c, None, 0))"

definition acquireBuffer :: "BufferQueueCore \<Rightarrow> nsecs_t \<Rightarrow> uint64_t \<Rightarrow> AcquireResult" where
  "acquireBuffer c expectedPresent maxFrameNumber =
     (if numAcquiredBuffers c \<ge> mMaxAcquiredBufferCount c + 1 then acquireFail INVALID_OPERATION c
      else if mQueue c = [] then acquireFail NO_BUFFER_AVAILABLE c
      else
        (case dropPhase c expectedPresent maxFrameNumber of
           (c1, listener, numDroppedBuffers) \<Rightarrow>
             if expectedPresent \<noteq> 0 \<and>
                (\<not> bufferIsDue (item_mTimestamp (hd (mQueue c1))) expectedPresent \<or>
                 \<not> consumerIsReady (item_mFrameNumber (hd (mQueue c1))) maxFrameNumber)
             then acquireFail PRESENT_LATER c1
             else acquireFront c1 listener numDroppedBuffers))"

section \<open>BufferQueueConsumer::releaseBuffer\<close>

record CallResult =
  cr_status :: status_t
  cr_core :: BufferQueueCore
  cr_events :: "event list"

text \<open>
  The argument check of lines 326 to 331 comes before the lock is taken. Inside the lock
  scope the source tests, in this order: the frame number, the scan of the queue for the
  slot, the slot's state, and \<open>mNeedsCleanupOnRelease\<close>. Only the ACQUIRED branch leaves the
  scope normally, broadcasts, and calls the listener it captured.
\<close>

definition releaseBuffer ::
  "BufferQueueCore \<Rightarrow> int \<Rightarrow> uint64_t \<Rightarrow> Fence option \<Rightarrow> EGLDisplay \<Rightarrow> EGLSyncKHR \<Rightarrow> CallResult" where
  "releaseBuffer c slot frameNumber releaseFence eglDisplay eglFence =
     (if slot < 0 \<or> slot \<ge> int NUM_BUFFER_SLOTS \<or> releaseFence = None then
        \<lparr>cr_status = BAD_VALUE, cr_core = c, cr_events = []\<rparr>
      else if frameNumber \<noteq> mFrameNumber (mSlots c ! nat slot) then
        \<lparr>cr_status = STALE_BUFFER_SLOT, cr_core = c, cr_events = [MutexLock, MutexUnlock]\<rparr>
      else if list_ex (\<lambda>current. item_mSlot current = slot) (mQueue c) then
        \<lparr>cr_status = BAD_VALUE, cr_core = c, cr_events = [MutexLock, MutexUnlock]\<rparr>
      else if mBufferState (mSlots c ! nat slot) = ACQUIRED then
        \<lparr>cr_status = NO_ERROR,
         cr_core = c\<lparr>mSlots := (mSlots c)[nat slot := (mSlots c ! nat slot)
                         \<lparr>mEglDisplay := eglDisplay,
                          mBufferState := FREE,
                          mEglFence := eglFence,
                          mFence := releaseFence\<rparr>],
                     mFreeBuffers := mFreeBuffers c @ [slot]\<rparr>,
         cr_events = [MutexLock, DequeueConditionBroadcast, MutexUnlock] @
           (case mConnectedProducerListener c of
              None \<Rightarrow> []
            | Some l \<Rightarrow> [OnBufferReleased l])\<rparr>
      else if mNeedsCleanupOnRelease (mSlots c ! nat slot) then
        \<lparr>cr_status = STALE_BUFFER_SLOT,
         cr_core = c\<lparr>mSlots := (mSlots c)[nat slot := (mSlots c ! nat slot)
                         \<lparr>mNeedsCleanupOnRelease := False\<rparr>]\<rparr>,
         cr_events = [MutexLock, MutexUnlock]\<rparr>
      else
        \<lparr>cr_status = BAD_VALUE, cr_core = c, cr_events = [MutexLock, MutexUnlock]\<rparr>)"

section \<open>BufferQueueConsumer::attachBuffer and detachBuffer\<close>

record AttachResult =
  at_status :: status_t
  at_core :: BufferQueueCore
  at_outSlot :: "int option"

text \<open>
  Lines 272 to 281: the head of \<open>mFreeSlots\<close> when there is one, else the head of
  \<open>mFreeBuffers\<close> (\<open>std::list::remove\<close> erases every occurrence), else no slot. The erasure
  is done before \<open>found\<close> is compared with \<open>INVALID_BUFFER_SLOT\<close>.
\<close>

definition findFreeSlot :: "BufferQueueCore \<Rightarrow> int \<times> BufferQueueCore" where
  "findFreeSlot c =
     (if mFreeSlots c \<noteq> [] then (hd (mFreeSlots c), c\<lparr>mFreeSlots := tl (mFreeSlots c)\<rparr>)
      else if mFreeBuffers c \<noteq> [] then
        (hd (mFreeBuffers c), c\<lparr>mFreeBuffers := removeAll (hd (mFreeBuffers c)) (mFreeBuffers c)\<rparr>)
      else (INVALID_BUFFER_SLOT, c))"

text \<open>
  \<open>outSlot\<close> is a pointer: the model is told whether it is null, and returns what is written
  through it. The two null checks come first; then, under the lock, the acquired-count
  check (lines 250 to 263), then the generation check (lines 265 to 270), then the search
  for a slot.
\<close>

definition attachBuffer ::
  "BufferQueueCore \<Rightarrow> bool \<Rightarrow> GraphicBuffer option \<Rightarrow> AttachResult" where
  "attachBuffer c outSlotIsNull buffer =
     (if outSlotIsNull then \<lparr>at_status = BAD_VALUE, at_core = c, at_outSlot = None\<rparr>
      else case buffer of
        None \<Rightarrow> \<lparr>at_status = BAD_VALUE, at_core = c, at_outSlot = None\<rparr>
      | Some b \<Rightarrow>
         (if numAcquiredBuffers c \<ge> mMaxAcquiredBufferCount c + 1 then
            \<lparr>at_status = INVALID_OPERATION, at_core = c, at_outSlot = None\<rparr>
          else if generationNumber b \<noteq> mGenerationNumber c then
            \<lparr>at_status = BAD_VALUE, at_core = c, at_outSlot = None\<rparr>
          else
            (case findFreeSlot c of
               (found, c1) \<Rightarrow>
                 if found = INVALID_BUFFER_SLOT then
                   \<lparr>at_status = NO_MEMORY, at_core = c1, at_outSlot = None\<rparr>
                 else
                   \<lparr>at_status = NO_ERROR,
                    at_core = c1\<lparr>mSlots := (mSlots c1)[nat found := (mSlots c1 ! nat found)
                                   \<lparr>mGraphicBuffer := Some b,
                                    mBufferState := ACQUIRED,
                                    mFrameNumber := 0,
                                    mFence := Some NO_FENCE,
                                    mAcquireCalled := False,
                                    mNeedsCleanupOnRelease := False,
                                    mAttachedByConsumer := True\<rparr>]\<rparr>,
                    at_outSlot = Some found\<rparr>)))"

text \<open>
  \<open>detachBuffer\<close> calls \<open>BufferQueueCore::freeBufferLocked\<close> and \<open>disconnect\<close> calls
  \<open>BufferQueueCore::freeAllBuffersLocked\<close>; both live in BufferQueueCore.cpp, which is not
  among the sources, and are parameters here.
\<close>

definition detachBuffer ::
  "(int \<Rightarrow> BufferQueueCore \<Rightarrow> BufferQueueCore) \<Rightarrow> BufferQueueCore \<Rightarrow> int \<Rightarrow> status_t \<times> BufferQueueCore" where
  "detachBuffer freeBufferLocked c slot =
     (if mIsAbandoned c then (NO_INIT, c)
      else if slot < 0 \<or> slot \<ge> int NUM_BUFFER_SLOTS then (BAD_VALUE, c)
      else if mBufferState (mSlots c ! nat slot) \<noteq> ACQUIRED then (BAD_VALUE, c)
      else (NO_ERROR, freeBufferLocked slot c))"

section \<open>Connection, the released-buffers mask and the setters\<close>

definition connect ::
  "BufferQueueCore \<Rightarrow> listener option \<Rightarrow> bool \<Rightarrow> status_t \<times> BufferQueueCore" where
  "connect c consumerListener controlledByApp =
     (if consumerListener = None then (BAD_VALUE, c)
      else if mIsAbandoned c then (NO_INIT, c)
      else (NO_ERROR, c\<lparr>mConsumerListener := consumerListener,
                         mConsumerControlledByApp := controlledByApp\<rparr>))"

definition disconnect ::
  "(BufferQueueCore \<Rightarrow> BufferQueueCore) \<Rightarrow> BufferQueueCore \<Rightarrow> status_t \<times> BufferQueueCore" where
  "disconnect freeAllBuffersLocked c =
     (if mConsumerListener c = None then (BAD_VALUE, c)
      else (NO_ERROR,
            freeAllBuffersLocked
              (c\<lparr>mQueue := [], mConsumerListener := None, mIsAbandoned := True\<rparr>)))"

text \<open>
  The two loops of \<open>getReleasedBuffers\<close>: a bit per slot whose \<open>mAcquireCalled\<close> is unset,
  then the bits of queued entries whose \<open>mAcquireCalled\<close> is set are cleared.
\<close>

definition releasedMask :: "BufferQueueCore \<Rightarrow> uint64_t" where
  "releasedMask c =
     foldl (\<lambda>mask current.
              if item_mAcquireCalled current
              then mask AND NOT (push_bit (nat (item_mSlot current)) 1) else mask)
       (foldl (\<lambda>mask s. if \<not> mAcquireCalled (mSlots c ! s) then mask OR push_bit s 1 else mask)
          0 [0..<NUM_BUFFER_SLOTS])
       (mQueue c)"

definition getReleasedBuffers :: "BufferQueueCore \<Rightarrow> bool \<Rightarrow> status_t \<times> uint64_t option" where
  "getReleasedBuffers c outSlotMaskIsNull =
     (if outSlotMaskIsNull then (BAD_VALUE, None)
      else if mIsAbandoned c then (NO_INIT, None)
      else (NO_ERROR, Some (releasedMask c)))"

definition setDefaultBufferSize ::
  "BufferQueueCore \<Rightarrow> uint32_t \<Rightarrow> uint32_t \<Rightarrow> status_t \<times> BufferQueueCore" where
  "setDefaultBufferSize c width height =
     (if width = 0 \<or> height = 0 then (BAD_VALUE, c)
      else (NO_ERROR, c\<lparr>mDefaultWidth := width, mDefaultHeight := height\<rparr>))"

definition disableAsyncBuffer :: "BufferQueueCore \<Rightarrow> status_t \<times> BufferQueueCore" where
  "disableAsyncBuffer c =
     (if mConsumerListener c \<noteq> None then (INVALID_OPERATION, c)
      else (NO_ERROR, c\<lparr>mUseAsyncBuffer := False\<rparr>))"

definition setMaxAcquiredBufferCount ::
  "BufferQueueCore \<Rightarrow> int \<Rightarrow> status_t \<times> BufferQueueCore" where
  "setMaxAcquiredBufferCount c maxAcquiredBuffers =
     (if maxAcquiredBuffers < 1 \<or> maxAcquiredBuffers > MAX_MAX_ACQUIRED_BUFFERS then (BAD_VALUE, c)
      else if mConnectedApi c \<noteq> NO_CONNECTED_API then (INVALID_OPERATION, c)
      else (NO_ERROR, c\<lparr>mMaxAcquiredBufferCount := maxAcquiredBuffers\<rparr>))"

definition setDefaultBufferFormat :: "BufferQueueCore \<Rightarrow> int \<Rightarrow> status_t \<times> BufferQueueCore" where
  "setDefaultBufferFormat c defaultFormat = (NO_ERROR, c\<lparr>mDefaultBufferFormat := defaultFormat\<rparr>)"

definition setDefaultBufferDataSpace :: "BufferQueueCore \<Rightarrow> int \<Rightarrow> status_t \<times> BufferQueueCore" where
  "setDefaultBufferDataSpace c defaultDataSpace =
     (NO_ERROR, c\<lparr>mDefaultBufferDataSpace := defaultDataSpace\<rparr>)"

definition setConsumerUsageBits :: "BufferQueueCore \<Rightarrow> uint32_t \<Rightarrow> status_t \<times> BufferQueueCore" where
  "setConsumerUsageBits c usage = (NO_ERROR, c\<lparr>mConsumerUsageBits := usage\<rparr>)"

definition setTransformHint :: "BufferQueueCore \<Rightarrow> uint32_t \<Rightarrow> status_t \<times> BufferQueueCore" where
  "setTransformHint c hint = (NO_ERROR, c\<lparr>mTransformHint := hint\<rparr>)"

text \<open>
  \<open>setDefaultMaxBufferCount\<close> only forwards to
  \<open>BufferQueueCore::setDefaultMaxBufferCountLocked\<close>, which is not among the sources and is
  a parameter here. \<open>setConsumerName\<close> returns nothing.
\<close>

definition setDefaultMaxBufferCount ::
  "(int \<Rightarrow> BufferQueueCore \<Rightarrow> status_t \<times> BufferQueueCore) \<Rightarrow> BufferQueueCore \<Rightarrow> int
     \<Rightarrow> status_t \<times> BufferQueueCore" where
  "setDefaultMaxBufferCount setDefaultMaxBufferCountLocked c bufferCount =
     setDefaultMaxBufferCountLocked bufferCount c"

definition setConsumerName :: "BufferQueueCore \<Rightarrow> string \<Rightarrow> BufferQueueCore" where
  "setConsumerName c name = c\<lparr>mConsumerName := name\<rparr>"

section \<open>BufferLayer: the frame-available callbacks\<close>

text \<open>
  The part of a layer that \<open>onFrameAvailable\<close> and \<open>onFrameReplaced\<close> touch under
  \<open>mQueueItemLock\<close>. \<open>mQueuedFrames\<close> is the \<open>int32_t\<close> that \<open>android_atomic_inc\<close> increments.
\<close>

record Layer =
  mQueueItems :: "BufferItem list"
  mQueuedFrames :: "32 word"
  mLastFrameNumberReceived :: uint64_t

text \<open>
  \<open>mQueueItemCondition.waitRelative(mQueueItemLock, ms2ns(500))\<close> gives the lock up, sleeps
  until the condition is signalled or 500 ms have passed, and takes the lock again. One wait
  is described by what it returns (\<open>NO_ERROR\<close> when signalled, \<open>TIMED_OUT\<close> otherwise) and by
  what the other threads did to the layer meanwhile. A call is run against the list of the
  waits that its environment offers; \<open>None\<close> says that after all of them the call is still
  inside its loop, it has not returned.
\<close>

type_synonym wait = "status_t \<times> (Layer \<Rightarrow> Layer)"

text \<open>
  The loop of lines 700 to 706 (and 724 to 730): \<open>while (item.mFrameNumber !=
  mLastFrameNumberReceived + 1)\<close>, one wait per round, one error line logged per wait that
  did not return \<open>NO_ERROR\<close>. The result is the layer at the exit of the loop and the number
  of lines logged.
\<close>

fun waitInOrder :: "uint64_t \<Rightarrow> wait list \<Rightarrow> Layer \<Rightarrow> nat \<Rightarrow> (Layer \<times> nat) option" where
  "waitInOrder frameNumber [] L logged =
     (if frameNumber \<noteq> mLastFrameNumberReceived L + 1 then None else Some (L, logged))"
| "waitInOrder frameNumber (w # ws) L logged =
     (if frameNumber \<noteq> mLastFrameNumberReceived L + 1
      then waitInOrder frameNumber ws (snd w L) (if fst w \<noteq> NO_ERROR then logged + 1 else logged)
      else Some (L, logged))"

text \<open>
  \<open>onFrameAvailable\<close>, lines 686 to 717: the tracker is reset for frame number 1 (lines 695
  to 697), then the loop, then the record of the item. The calls into the interceptor and
  into \<open>signalLayerUpdate\<close> act on other objects and are left out.
\<close>

definition resetTracker :: "BufferItem \<Rightarrow> Layer \<Rightarrow> Layer" where
  "resetTracker item L =
     (if item_mFrameNumber item = 1 then L\<lparr>mLastFrameNumberReceived := 0\<rparr> else L)"

definition onFrameAvailable :: "BufferItem \<Rightarrow> wait list \<Rightarrow> Layer \<Rightarrow> (Layer \<times> nat) option" where
  "onFrameAvailable item env L =
     (case waitInOrder (item_mFrameNumber item) env (resetTracker item L) 0 of
        None \<Rightarrow> None
      | Some (L1, logged) \<Rightarrow>
          Some (L1\<lparr>mQueueItems := mQueueItems L1 @ [item],
                   mQueuedFrames := mQueuedFrames L1 + 1,
                   mLastFrameNumberReceived := item_mFrameNumber item\<rparr>, logged))"

text \<open>\<open>onFrameReplaced\<close>, lines 719 to 742: on an empty queue it returns without recording.\<close>

definition onFrameReplaced :: "BufferItem \<Rightarrow> wait list \<Rightarrow> Layer \<Rightarrow> (Layer \<times> nat) option" where
  "onFrameReplaced item env L =
     (case waitInOrder (item_mFrameNumber item) env L 0 of
        None \<Rightarrow> None
      | Some (L1, logged) \<Rightarrow>
          if mQueueItems L1 = [] then Some (L1, logged)
          else Some (L1\<lparr>mQueueItems := (mQueueItems L1)[length (mQueueItems L1) - 1 := item],
                        mLastFrameNumberReceived := item_mFrameNumber item\<rparr>, logged))"

section \<open>The specification's conditions, and example states\<close>

text \<open>
  The drop condition in the specification's words: the queue holds more than one entry, the
  front entry is not auto-timestamped, the second entry's frame number is acceptable
  (\<open>max_frame_number\<close> is 0 or the number is at most \<open>max_frame_number\<close>), and the second
  entry's timestamp \<open>desired\<close> satisfies
  \<open>expected_present - 10^9 \<le> desired \<le> expected_present\<close>, in 64-bit signed nanoseconds.
\<close>

definition spec_dropCondition :: "nsecs_t \<Rightarrow> uint64_t \<Rightarrow> BufferItem list \<Rightarrow> bool" where
  "spec_dropCondition expected_present max_frame_number q =
     (length q > 1 \<and> \<not> item_mIsAutoTimestamp (q ! 0) \<and>
      (max_frame_number = 0 \<or> item_mFrameNumber (q ! 1) \<le> max_frame_number) \<and>
      expected_present - 1000000000 \<le>s item_mTimestamp (q ! 1) \<and>
      item_mTimestamp (q ! 1) \<le>s expected_present)"

text \<open>
  What every entry that a drop has brought to the front satisfies: it is not later than
  \<open>expectedPresent\<close>, and its frame number passes the consumer's cap.
\<close>

definition frontAccepted :: "nsecs_t \<Rightarrow> uint64_t \<Rightarrow> BufferQueueCore \<Rightarrow> bool" where
  "frontAccepted e m c =
     (item_mTimestamp (hd (mQueue c)) \<le>s e \<and> (m = 0 \<or> item_mFrameNumber (hd (mQueue c)) \<le> m))"

text \<open>The entry at the front of the queue when the drop loop has ended.\<close>

definition finalFront :: "BufferQueueCore \<Rightarrow> nsecs_t \<Rightarrow> uint64_t \<Rightarrow> BufferItem" where
  "finalFront c expectedPresent maxFrameNumber =
     hd (mQueue (fst (dropPhase c expectedPresent maxFrameNumber)))"

text \<open>
  Part of the specification's slot invariant ("a slot is QUEUED iff exactly one FrameQueue
  entry refers to it"): no slot that a queue entry still tracks is ACQUIRED.
\<close>

definition queuedSlotsNotAcquired :: "BufferQueueCore \<Rightarrow> bool" where
  "queuedSlotsNotAcquired c =
     list_all (\<lambda>item. stillTracking c item \<longrightarrow>
                      mBufferState (mSlots c ! nat (item_mSlot item)) \<noteq> ACQUIRED) (mQueue c)"

text \<open>
  Example data: a slot with or without a buffer, a queue entry, and a core with a producer
  listener (number 7) and a consumer listener (number 8) connected, and
  \<open>mMaxAcquiredBufferCount = 1\<close>.
\<close>

definition exSlot :: "nat option \<Rightarrow> BufferState \<Rightarrow> uint64_t \<Rightarrow> BufferSlot" where
  "exSlot h st fn =
     \<lparr>mGraphicBuffer = map_option (\<lambda>h. \<lparr>handle = h, generationNumber = 0\<rparr>) h,
      mEglDisplay = 0, mBufferState = st, mFrameNumber = fn, mEglFence = 0,
      mFence = Some NO_FENCE, mAcquireCalled = False, mNeedsCleanupOnRelease = False,
      mAttachedByConsumer = False\<rparr>"

definition exItem :: "int \<Rightarrow> nat \<Rightarrow> nsecs_t \<Rightarrow> bool \<Rightarrow> uint64_t \<Rightarrow> BufferItem" where
  "exItem slot h ts auto fn =
     \<lparr>item_mGraphicBuffer = Some \<lparr>handle = h, generationNumber = 0\<rparr>,
      item_mFence = Some NO_FENCE, item_mTimestamp = ts, item_mIsAutoTimestamp = auto,
      item_mFrameNumber = fn, item_mSlot = slot, item_mIsDroppable = False,
      item_mAcquireCalled = False\<rparr>"

definition exCore :: "BufferSlot list \<Rightarrow> BufferItem list \<Rightarrow> BufferQueueCore" where
  "exCore slots queue =
     \<lparr>mSlots = slots, mQueue = queue, mFreeSlots = [], mFreeBuffers = [],
      mConnectedProducerListener = Some 7, mConsumerListener = Some 8,
      mConsumerControlledByApp = False, mIsAbandoned = False, mMaxAcquiredBufferCount = 1,
      mGenerationNumber = 0, mConnectedApi = 1, mUseAsyncBuffer = False,
      mDefaultWidth = 1, mDefaultHeight = 1, mDefaultBufferFormat = 1,
      mDefaultBufferDataSpace = 0, mConsumerUsageBits = 0, mTransformHint = 0,
      mConsumerName = ''layer''\<rparr>"

text \<open>
  The specification's scenario 3: one explicit-timestamp frame wanted at 1.5 s, queued in
  slot 3.
\<close>

definition exLater :: BufferQueueCore where
  "exLater = exCore ((replicate 64 (exSlot None FREE 0))[3 := exSlot (Some 30) QUEUED 1])
                    [exItem 3 30 1500000000 False 1]"

text \<open>The specification's scenario 4: one queued frame with frame number 5.\<close>

definition exGate :: BufferQueueCore where
  "exGate = exCore ((replicate 64 (exSlot None FREE 0))[3 := exSlot (Some 30) QUEUED 5])
                   [exItem 3 30 1000 True 5]"

text \<open>
  The specification's scenario 2: F1 (slot 3, wanted at 1 s, frame 1) and then F2 (slot 7,
  wanted at 2 s, frame 2), both with explicit timestamps.
\<close>

definition exDrop :: BufferQueueCore where
  "exDrop = exCore ((replicate 64 (exSlot None FREE 0))
                      [3 := exSlot (Some 30) QUEUED 1, 7 := exSlot (Some 70) QUEUED 2])
                   [exItem 3 30 1000000000 False 1, exItem 7 70 2000000000 False 2]"

text \<open>The same queue after slot 3 has lost its buffer: F1 is no longer tracked.\<close>

definition exUntracked :: BufferQueueCore where
  "exUntracked = exCore ((replicate 64 (exSlot None FREE 0))[7 := exSlot (Some 70) QUEUED 2])
                   [exItem 3 30 1000000000 False 1, exItem 7 70 2000000000 False 2]"

text \<open>One queued frame whose slot has lost its buffer: the front entry is not tracked.\<close>

definition exLost :: BufferQueueCore where
  "exLost = exCore ((replicate 64 (exSlot None FREE 0))[5 := exSlot (Some 50) ACQUIRED 1])
                   [exItem 3 30 1000 False 2]"

text \<open>Two ACQUIRED slots with \<open>mMaxAcquiredBufferCount = 1\<close>: the cap is reached.\<close>

definition exFull :: BufferQueueCore where
  "exFull = exCore ((replicate 64 (exSlot None FREE 0))
                      [5 := exSlot (Some 50) ACQUIRED 1, 6 := exSlot (Some 60) ACQUIRED 2])
                   []"

text \<open>
  A core as a consumer disconnect leaves it: abandoned, no consumer listener, the queue
  empty, no slot holding a buffer; slot 0 is listed as free.
\<close>

definition exAbandoned :: BufferQueueCore where
  "exAbandoned = (exCore (replicate 64 (exSlot None FREE 0)) [])
                    \<lparr>mFreeSlots := [0], mConsumerListener := None, mIsAbandoned := True\<rparr>"

text \<open>
  The layer as the other threads have left it after a run of waits, and the number of those
  waits that timed out.
\<close>

definition afterWaits :: "wait list \<Rightarrow> Layer \<Rightarrow> Layer" where
  "afterWaits ws L = foldl (\<lambda>L w. snd w L) L ws"

definition timeouts :: "wait list \<Rightarrow> nat" where
  "timeouts ws = length (filter (\<lambda>w. fst w \<noteq> NO_ERROR) ws)"

text \<open>
  Example: a layer that has accepted frame 5, the notification for frame 8, a wait that
  times out with the layer untouched, and a wait during which the notification for frame
  \<open>n\<close> is recorded.
\<close>

definition exLayer :: Layer where
  "exLayer = \<lparr>mQueueItems = [], mQueuedFrames = 0, mLastFrameNumberReceived = 5\<rparr>"

definition exFrame8 :: BufferItem where
  "exFrame8 = exItem 2 20 0 True 8"

definition timedOut :: wait where
  "timedOut = (TIMED_OUT, \<lambda>L. L)"

definition frameRecorded :: "uint64_t \<Rightarrow> wait" where
  "frameRecorded n = (NO_ERROR, \<lambda>L. L\<lparr>mLastFrameNumberReceived := n\<rparr>)"

section \<open>The drop loop\<close>

lemma dropLoop_unfold:
  "dropLoop e m st =
     (if spec_dropCondition e m (mQueue (fst st)) then dropLoop e m (dropFront st) else st)"
  by (subst dropLoop.simps)
     (auto simp: spec_dropCondition_def MAX_REASONABLE_NSEC_def signed.not_less)

text \<open>
  Induction along the rounds of the loop, for a relation between the state at the loop's
  head and the state at its exit.
\<close>

lemma hd_tl_nth: "1 < length xs \<Longrightarrow> hd (tl xs) = xs ! 1"
  by (cases xs; cases "tl xs") auto

lemma mQueue_dropFront: "mQueue (fst (dropFront st)) = tl (mQueue (fst st))"
  by (cases st) (simp add: dropFront_def)

lemma dropLoop_rule:
  assumes stop: "\<And>st. \<not> spec_dropCondition e m (mQueue (fst st)) \<Longrightarrow> Q st st"
    and step: "\<And>st r. spec_dropCondition e m (mQueue (fst st)) \<Longrightarrow> Q (dropFront st) r \<Longrightarrow> Q st r"
  shows "Q st (dropLoop e m st)"
proof (induction "length (mQueue (fst st))" arbitrary: st rule: less_induct)
  case less
  show ?case
  proof (cases "spec_dropCondition e m (mQueue (fst st))")
    case False
    then have "dropLoop e m st = st"
      using dropLoop_unfold [of e m st] by simp
    with stop [OF False] show ?thesis
      by simp
  next
    case True
    then have eq: "dropLoop e m st = dropLoop e m (dropFront st)"
      using dropLoop_unfold [of e m st] by simp
    from True have "length (mQueue (fst (dropFront st))) < length (mQueue (fst st))"
      by (auto simp: mQueue_dropFront spec_dropCondition_def)
    then have "Q (dropFront st) (dropLoop e m (dropFront st))"
      by (rule less)
    with step [OF True] show ?thesis
      unfolding eq by simp
  qed
qed

lemma dropCondition_frontAccepted:
  "spec_dropCondition e m (mQueue (fst st)) \<Longrightarrow> frontAccepted e m (fst (dropFront st))"
  by (simp add: spec_dropCondition_def frontAccepted_def mQueue_dropFront hd_tl_nth)

lemma dropLoop_same_or_accepted:
  "dropLoop e m st = st \<or> frontAccepted e m (fst (dropLoop e m st))"
proof (rule dropLoop_rule [where Q = "\<lambda>st r. r = st \<or> frontAccepted e m (fst r)"])
  fix st :: "BufferQueueCore \<times> listener option \<times> nat"
  show "st = st \<or> frontAccepted e m (fst st)"
    by simp
next
  fix st r :: "BufferQueueCore \<times> listener option \<times> nat"
  assume "spec_dropCondition e m (mQueue (fst st))"
    and "r = dropFront st \<or> frontAccepted e m (fst r)"
  then show "r = st \<or> frontAccepted e m (fst r)"
    using dropCondition_frontAccepted [of e m st] by auto
qed

lemma dropLoop_nonempty:
  "mQueue (fst st) \<noteq> [] \<longrightarrow> mQueue (fst (dropLoop e m st)) \<noteq> []"
proof (rule dropLoop_rule [where Q = "\<lambda>st r. mQueue (fst st) \<noteq> [] \<longrightarrow> mQueue (fst r) \<noteq> []"])
  fix st :: "BufferQueueCore \<times> listener option \<times> nat"
  show "mQueue (fst st) \<noteq> [] \<longrightarrow> mQueue (fst st) \<noteq> []"
    by simp
next
  fix st r :: "BufferQueueCore \<times> listener option \<times> nat"
  assume d: "spec_dropCondition e m (mQueue (fst st))"
    and r: "mQueue (fst (dropFront st)) \<noteq> [] \<longrightarrow> mQueue (fst r) \<noteq> []"
  from d have "mQueue (fst (dropFront st)) \<noteq> []"
    by (cases "mQueue (fst st)") (auto simp: mQueue_dropFront spec_dropCondition_def)
  with r show "mQueue (fst st) \<noteq> [] \<longrightarrow> mQueue (fst r) \<noteq> []"
    by simp
qed

lemma frontAccepted_due_ready:
  "frontAccepted e m c \<Longrightarrow>
   bufferIsDue (item_mTimestamp (hd (mQueue c))) e \<and>
   consumerIsReady (item_mFrameNumber (hd (mQueue c))) m"
  by (auto simp: frontAccepted_def bufferIsDue_def consumerIsReady_def)

lemma dropPhase_same_or_accepted:
  "dropPhase c e m = (c, None, 0) \<or> frontAccepted e m (fst (dropPhase c e m))"
  using dropLoop_same_or_accepted [of e m "(c, None, 0)"]
  by (simp add: dropPhase_def)

lemma dropPhase_nonempty:
  "mQueue c \<noteq> [] \<Longrightarrow> mQueue (fst (dropPhase c e m)) \<noteq> []"
  using dropLoop_nonempty [of "(c, None, 0)" e m]
  by (simp add: dropPhase_def)

text \<open>
  \<open>expectedPresent - MAX_REASONABLE_NSEC\<close> and \<open>expectedPresent + MAX_REASONABLE_NSEC\<close> are
  the integers they look like unless they leave the range of \<open>int64_t\<close>.
\<close>

lemma sint_sub_nsec:
  fixes e :: nsecs_t
  assumes "- (2 ^ 63) + 1000000000 \<le> sint e"
  shows "sint (e - 1000000000) = sint e - 1000000000"
proof -
  have "sint e < 2 ^ 63"
    using sint_lt [of e] by simp
  with assms have "signed_take_bit 63 (sint e - 1000000000) = sint e - 1000000000"
    by (intro signed_take_bit_int_eq_self) auto
  then show ?thesis
    by (simp add: sint_word_ariths)
qed

lemma sint_add_nsec:
  fixes e :: nsecs_t
  assumes "sint e \<le> 2 ^ 63 - 1 - 1000000000"
  shows "sint (e + 1000000000) = sint e + 1000000000"
proof -
  have "- (2 ^ 63) \<le> sint e"
    using sint_ge [of e] by simp
  with assms have "signed_take_bit 63 (sint e + 1000000000) = sint e + 1000000000"
    by (intro signed_take_bit_int_eq_self) auto
  then show ?thesis
    by (simp add: sint_word_ariths)
qed

subsection \<open>What a drop does to the slots\<close>

lemma dropFront_slots:
  "length (mSlots (fst (dropFront st))) = length (mSlots (fst st)) \<and>
   mAcquireCalled (mSlots (fst (dropFront st)) ! s) = mAcquireCalled (mSlots (fst st) ! s) \<and>
   mGraphicBuffer (mSlots (fst (dropFront st)) ! s) = mGraphicBuffer (mSlots (fst st) ! s) \<and>
   (mBufferState (mSlots (fst (dropFront st)) ! s) = ACQUIRED \<longrightarrow>
      mBufferState (mSlots (fst st) ! s) = ACQUIRED)"
proof (cases st)
  case (fields c l n)
  show ?thesis
  proof (cases "s = nat (item_mSlot (hd (mQueue c)))")
    case True
    then show ?thesis
      unfolding fields by (auto simp: dropFront_def stillTracking_def)
  next
    case False
    then show ?thesis
      unfolding fields by (auto simp: dropFront_def)
  qed
qed

lemma dropLoop_slots:
  "length (mSlots (fst (dropLoop e m st))) = length (mSlots (fst st)) \<and>
   (\<forall>s. mAcquireCalled (mSlots (fst (dropLoop e m st)) ! s) = mAcquireCalled (mSlots (fst st) ! s)) \<and>
   (\<forall>s. mBufferState (mSlots (fst (dropLoop e m st)) ! s) = ACQUIRED \<longrightarrow>
        mBufferState (mSlots (fst st) ! s) = ACQUIRED)"
proof (rule dropLoop_rule [where Q = "\<lambda>st r.
   length (mSlots (fst r)) = length (mSlots (fst st)) \<and>
   (\<forall>s. mAcquireCalled (mSlots (fst r) ! s) = mAcquireCalled (mSlots (fst st) ! s)) \<and>
   (\<forall>s. mBufferState (mSlots (fst r) ! s) = ACQUIRED \<longrightarrow>
        mBufferState (mSlots (fst st) ! s) = ACQUIRED)"])
  fix st :: "BufferQueueCore \<times> listener option \<times> nat"
  show "length (mSlots (fst st)) = length (mSlots (fst st)) \<and>
   (\<forall>s. mAcquireCalled (mSlots (fst st) ! s) = mAcquireCalled (mSlots (fst st) ! s)) \<and>
   (\<forall>s. mBufferState (mSlots (fst st) ! s) = ACQUIRED \<longrightarrow>
        mBufferState (mSlots (fst st) ! s) = ACQUIRED)"
    by simp
next
  fix st r :: "BufferQueueCore \<times> listener option \<times> nat"
  assume "length (mSlots (fst r)) = length (mSlots (fst (dropFront st))) \<and>
   (\<forall>s. mAcquireCalled (mSlots (fst r) ! s) = mAcquireCalled (mSlots (fst (dropFront st)) ! s)) \<and>
   (\<forall>s. mBufferState (mSlots (fst r) ! s) = ACQUIRED \<longrightarrow>
        mBufferState (mSlots (fst (dropFront st)) ! s) = ACQUIRED)"
  then show "length (mSlots (fst r)) = length (mSlots (fst st)) \<and>
   (\<forall>s. mAcquireCalled (mSlots (fst r) ! s) = mAcquireCalled (mSlots (fst st) ! s)) \<and>
   (\<forall>s. mBufferState (mSlots (fst r) ! s) = ACQUIRED \<longrightarrow>
        mBufferState (mSlots (fst st) ! s) = ACQUIRED)"
    using dropFront_slots [of st] by simp
qed

lemma acquired_among_le:
  assumes "\<And>s. mBufferState (a ! s) = ACQUIRED \<Longrightarrow> mBufferState (b ! s) = ACQUIRED"
  shows "length (filter (\<lambda>s. mBufferState (a ! s) = ACQUIRED) ns)
           \<le> length (filter (\<lambda>s. mBufferState (b ! s) = ACQUIRED) ns)"
  using assms by (induction ns) auto

lemma numAcquiredBuffers_mono:
  assumes "\<And>s. mBufferState (mSlots c' ! s) = ACQUIRED \<Longrightarrow> mBufferState (mSlots c ! s) = ACQUIRED"
  shows "numAcquiredBuffers c' \<le> numAcquiredBuffers c"
  unfolding numAcquiredBuffers_def
  using acquired_among_le [of "mSlots c'" "mSlots c" "[0..<NUM_BUFFER_SLOTS]"] assms
  by simp

text \<open>
  Where no tracked queue entry sits in an ACQUIRED slot, a drop frees no ACQUIRED slot: the
  count of ACQUIRED slots stays, and so does the property.
\<close>

lemma dropFront_keeps_count:
  assumes inv: "queuedSlotsNotAcquired c" and q: "mQueue c \<noteq> []"
  shows "queuedSlotsNotAcquired (fst (dropFront (c, l, n))) \<and>
         numAcquiredBuffers (fst (dropFront (c, l, n))) = numAcquiredBuffers c"
proof -
  from q obtain x xs where qx: "mQueue c = x # xs"
    by (cases "mQueue c") auto
  from inv have tl_inv: "list_all (\<lambda>item. stillTracking c item \<longrightarrow>
                      mBufferState (mSlots c ! nat (item_mSlot item)) \<noteq> ACQUIRED) xs"
    by (simp add: queuedSlotsNotAcquired_def qx)
  show ?thesis
  proof (cases "stillTracking c x")
    case False
    then have c': "fst (dropFront (c, l, n)) = c\<lparr>mQueue := xs\<rparr>"
      by (simp add: dropFront_def qx)
    have "\<And>item. stillTracking (c\<lparr>mQueue := xs\<rparr>) item = stillTracking c item"
      by (simp add: stillTracking_def)
    with tl_inv show ?thesis
      by (simp add: c' queuedSlotsNotAcquired_def numAcquiredBuffers_def)
  next
    case True
    with inv have na: "mBufferState (mSlots c ! nat (item_mSlot x)) \<noteq> ACQUIRED"
      by (simp add: queuedSlotsNotAcquired_def qx)
    let ?i = "nat (item_mSlot x)"
    let ?slots = "(mSlots c)[?i := (mSlots c ! ?i)\<lparr>mBufferState := FREE\<rparr>]"
    let ?c' = "c\<lparr>mSlots := ?slots, mFreeBuffers := mFreeBuffers c @ [item_mSlot x], mQueue := xs\<rparr>"
    from True have il: "?i < length (mSlots c)"
      by (simp add: stillTracking_def)
    have st: "\<And>s. (mBufferState (?slots ! s) = ACQUIRED) = (mBufferState (mSlots c ! s) = ACQUIRED)"
      using na il by (case_tac "s = ?i") auto
    have gb: "\<And>s. mGraphicBuffer (?slots ! s) = mGraphicBuffer (mSlots c ! s)"
      using il by (case_tac "s = ?i") auto
    have c': "fst (dropFront (c, l, n)) = ?c'"
      using True by (simp add: dropFront_def qx)
    have cnt: "numAcquiredBuffers ?c' = numAcquiredBuffers c"
      by (simp add: numAcquiredBuffers_def st)
    have "\<And>item. stillTracking ?c' item = stillTracking c item"
      by (simp add: stillTracking_def gb)
    with tl_inv have "queuedSlotsNotAcquired ?c'"
      by (simp add: queuedSlotsNotAcquired_def st list_all_iff)
    with cnt show ?thesis
      unfolding c' by simp
  qed
qed

lemma dropLoop_keeps_count:
  "queuedSlotsNotAcquired (fst st) \<longrightarrow>
     numAcquiredBuffers (fst (dropLoop e m st)) = numAcquiredBuffers (fst st)"
proof -
  have "queuedSlotsNotAcquired (fst st) \<longrightarrow>
     queuedSlotsNotAcquired (fst (dropLoop e m st)) \<and>
     numAcquiredBuffers (fst (dropLoop e m st)) = numAcquiredBuffers (fst st)"
  proof (rule dropLoop_rule [where Q = "\<lambda>st r. queuedSlotsNotAcquired (fst st) \<longrightarrow>
     queuedSlotsNotAcquired (fst r) \<and> numAcquiredBuffers (fst r) = numAcquiredBuffers (fst st)"])
    fix st :: "BufferQueueCore \<times> listener option \<times> nat"
    show "queuedSlotsNotAcquired (fst st) \<longrightarrow>
     queuedSlotsNotAcquired (fst st) \<and> numAcquiredBuffers (fst st) = numAcquiredBuffers (fst st)"
      by simp
  next
    fix st r :: "BufferQueueCore \<times> listener option \<times> nat"
    assume d: "spec_dropCondition e m (mQueue (fst st))"
      and r: "queuedSlotsNotAcquired (fst (dropFront st)) \<longrightarrow>
        queuedSlotsNotAcquired (fst r) \<and>
        numAcquiredBuffers (fst r) = numAcquiredBuffers (fst (dropFront st))"
    from d have "mQueue (fst st) \<noteq> []"
      by (auto simp: spec_dropCondition_def)
    with r show "queuedSlotsNotAcquired (fst st) \<longrightarrow>
        queuedSlotsNotAcquired (fst r) \<and> numAcquiredBuffers (fst r) = numAcquiredBuffers (fst st)"
      using dropFront_keeps_count [of "fst st" "fst (snd st)" "snd (snd st)"] by simp
  qed
  then show ?thesis
    by simp
qed

subsection \<open>What a drop does to the free list, the listener and the count\<close>

lemma dropFront_accounting:
  assumes "mQueue (fst st) \<noteq> []"
  shows "\<exists>xs. mFreeBuffers (fst (dropFront st)) = mFreeBuffers (fst st) @ xs \<and>
     snd (snd (dropFront st)) = snd (snd st) + length xs \<and>
     mConnectedProducerListener (fst (dropFront st)) = mConnectedProducerListener (fst st) \<and>
     fst (snd (dropFront st)) =
       (if xs = [] then fst (snd st) else mConnectedProducerListener (fst st)) \<and>
     length xs + length (mQueue (fst (dropFront st))) \<le> length (mQueue (fst st))"
proof (cases st)
  case (fields c l n)
  show ?thesis
  proof (cases "stillTracking c (hd (mQueue c))")
    case True
    with assms show ?thesis
      unfolding fields
      by (intro exI [of _ "[item_mSlot (hd (mQueue c))]"])
         (cases "mQueue c"; simp add: dropFront_def)
  next
    case False
    then show ?thesis
      unfolding fields
      by (intro exI [of _ "[]"]) (simp add: dropFront_def)
  qed
qed

lemma dropLoop_accounting:
  "\<exists>xs. mFreeBuffers (fst (dropLoop e m st)) = mFreeBuffers (fst st) @ xs \<and>
     snd (snd (dropLoop e m st)) = snd (snd st) + length xs \<and>
     mConnectedProducerListener (fst (dropLoop e m st)) = mConnectedProducerListener (fst st) \<and>
     fst (snd (dropLoop e m st)) =
       (if xs = [] then fst (snd st) else mConnectedProducerListener (fst st)) \<and>
     length xs + length (mQueue (fst (dropLoop e m st))) \<le> length (mQueue (fst st))"
proof (rule dropLoop_rule [where Q = "\<lambda>st r.
   \<exists>xs. mFreeBuffers (fst r) = mFreeBuffers (fst st) @ xs \<and>
     snd (snd r) = snd (snd st) + length xs \<and>
     mConnectedProducerListener (fst r) = mConnectedProducerListener (fst st) \<and>
     fst (snd r) = (if xs = [] then fst (snd st) else mConnectedProducerListener (fst st)) \<and>
     length xs + length (mQueue (fst r)) \<le> length (mQueue (fst st))"])
  fix st :: "BufferQueueCore \<times> listener option \<times> nat"
  show "\<exists>xs. mFreeBuffers (fst st) = mFreeBuffers (fst st) @ xs \<and>
     snd (snd st) = snd (snd st) + length xs \<and>
     mConnectedProducerListener (fst st) = mConnectedProducerListener (fst st) \<and>
     fst (snd st) = (if xs = [] then fst (snd st) else mConnectedProducerListener (fst st)) \<and>
     length xs + length (mQueue (fst st)) \<le> length (mQueue (fst st))"
    by (intro exI [of _ "[]"]) simp
next
  fix st r :: "BufferQueueCore \<times> listener option \<times> nat"
  assume d: "spec_dropCondition e m (mQueue (fst st))"
    and "\<exists>xs. mFreeBuffers (fst r) = mFreeBuffers (fst (dropFront st)) @ xs \<and>
     snd (snd r) = snd (snd (dropFront st)) + length xs \<and>
     mConnectedProducerListener (fst r) = mConnectedProducerListener (fst (dropFront st)) \<and>
     fst (snd r) =
       (if xs = [] then fst (snd (dropFront st)) else mConnectedProducerListener (fst (dropFront st))) \<and>
     length xs + length (mQueue (fst r)) \<le> length (mQueue (fst (dropFront st)))"
  then obtain ys where ys: "mFreeBuffers (fst r) = mFreeBuffers (fst (dropFront st)) @ ys"
     "snd (snd r) = snd (snd (dropFront st)) + length ys"
     "mConnectedProducerListener (fst r) = mConnectedProducerListener (fst (dropFront st))"
     "fst (snd r) =
       (if ys = [] then fst (snd (dropFront st)) else mConnectedProducerListener (fst (dropFront st)))"
     "length ys + length (mQueue (fst r)) \<le> length (mQueue (fst (dropFront st)))"
    by blast
  from d have "mQueue (fst st) \<noteq> []"
    by (auto simp: spec_dropCondition_def)
  from dropFront_accounting [OF this]
  obtain xs where xs: "mFreeBuffers (fst (dropFront st)) = mFreeBuffers (fst st) @ xs"
     "snd (snd (dropFront st)) = snd (snd st) + length xs"
     "mConnectedProducerListener (fst (dropFront st)) = mConnectedProducerListener (fst st)"
     "fst (snd (dropFront st)) =
       (if xs = [] then fst (snd st) else mConnectedProducerListener (fst st))"
     "length xs + length (mQueue (fst (dropFront st))) \<le> length (mQueue (fst st))"
    by blast
  show "\<exists>xs. mFreeBuffers (fst r) = mFreeBuffers (fst st) @ xs \<and>
     snd (snd r) = snd (snd st) + length xs \<and>
     mConnectedProducerListener (fst r) = mConnectedProducerListener (fst st) \<and>
     fst (snd r) = (if xs = [] then fst (snd st) else mConnectedProducerListener (fst st)) \<and>
     length xs + length (mQueue (fst r)) \<le> length (mQueue (fst st))"
    using xs ys by (intro exI [of _ "xs @ ys"]) auto
qed

lemma dropPhase_accounting:
  "\<exists>xs. mFreeBuffers (fst (dropPhase c e m)) = mFreeBuffers c @ xs \<and>
     snd (snd (dropPhase c e m)) = length xs \<and>
     fst (snd (dropPhase c e m)) = (if xs = [] then None else mConnectedProducerListener c) \<and>
     length xs + length (mQueue (fst (dropPhase c e m))) \<le> length (mQueue c)"
proof (cases "e = 0")
  case True
  then show ?thesis
    by (intro exI [of _ "[]"]) (simp add: dropPhase_def)
next
  case False
  from dropLoop_accounting [of e m "(c, None, 0)"]
  obtain xs where "mFreeBuffers (fst (dropLoop e m (c, None, 0))) = mFreeBuffers c @ xs"
    and "snd (snd (dropLoop e m (c, None, 0))) = length xs"
    and "fst (snd (dropLoop e m (c, None, 0))) =
           (if xs = [] then None else mConnectedProducerListener c)"
    and "length xs + length (mQueue (fst (dropLoop e m (c, None, 0)))) \<le> length (mQueue c)"
    by auto
  with False show ?thesis
    by (intro exI [of _ xs]) (simp add: dropPhase_def)
qed

section \<open>Claims about acquireBuffer\<close>

text \<open>
  C1. Whenever \<open>acquireBuffer\<close> returns \<open>PRESENT_LATER\<close> or \<open>NO_BUFFER_AVAILABLE\<close>, the whole
  call leaves the core as it found it, for every starting state and every
  \<open>expectedPresent\<close> and \<open>maxFrameNumber\<close>: no queue entry is erased, no slot changes, nothing
  is pushed onto \<open>mFreeBuffers\<close>; nothing is written to the output and the listener is not
  called. (A drop leaves at the front an entry that passes the timing check, so a call that
  defers has dropped nothing.)
\<close>

theorem acquire_deferred_or_empty_unchanged:
  assumes "ar_status (acquireBuffer c expectedPresent maxFrameNumber)
             \<in> {PRESENT_LATER, NO_BUFFER_AVAILABLE}"
  shows "ar_core (acquireBuffer c expectedPresent maxFrameNumber) = c \<and>
         ar_outBuffer (acquireBuffer c expectedPresent maxFrameNumber) = None \<and>
         ar_events (acquireBuffer c expectedPresent maxFrameNumber) = [MutexLock, MutexUnlock]"
proof -
  obtain c1 l n where dp: "dropPhase c expectedPresent maxFrameNumber = (c1, l, n)"
    by (cases "dropPhase c expectedPresent maxFrameNumber") auto
  have "(c1, l, n) = (c, None, 0) \<or> frontAccepted expectedPresent maxFrameNumber c1"
    using dropPhase_same_or_accepted [of c expectedPresent maxFrameNumber] dp by simp
  then show ?thesis
    using assms frontAccepted_due_ready [of expectedPresent maxFrameNumber c1]
    by (auto simp: acquireBuffer_def acquireFail_def acquireFront_def dp Let_def
             split: if_splits)
qed

theorem acquire_deferred_or_empty_unchanged_witness:
  "ar_status (acquireBuffer exLater 1000000000 0) = PRESENT_LATER \<and>
   ar_core (acquireBuffer exLater 1000000000 0) = exLater \<and>
   ar_outBuffer (acquireBuffer exLater 1000000000 0) = None \<and>
   ar_events (acquireBuffer exLater 1000000000 0) = [MutexLock, MutexUnlock]"
proof -
  have st: "ar_status (acquireBuffer exLater 1000000000 0) = PRESENT_LATER"
    by code_simp
  then have "ar_status (acquireBuffer exLater 1000000000 0) \<in> {PRESENT_LATER, NO_BUFFER_AVAILABLE}"
    by simp
  from acquire_deferred_or_empty_unchanged [OF this] st show ?thesis
    by simp
qed

text \<open>
  C5. With \<open>expectedPresent = 0\<close>, a non-empty queue and the acquired-count cap not reached,
  the front entry is returned and acquired whatever \<open>maxFrameNumber\<close> is: the status is
  \<open>NO_ERROR\<close>, the output is the front entry (without its buffer when the entry's
  \<open>mAcquireCalled\<close> is set), the entry is popped, its slot, when still tracked, is ACQUIRED,
  and the whole result is the one for \<open>maxFrameNumber = 0\<close>.
\<close>

theorem acquire_greedy_ignores_maxFrameNumber:
  assumes "mQueue c \<noteq> []"
    and "numAcquiredBuffers c < mMaxAcquiredBufferCount c + 1"
  shows "ar_status (acquireBuffer c 0 maxFrameNumber) = NO_ERROR \<and>
         ar_outBuffer (acquireBuffer c 0 maxFrameNumber) =
           Some (if item_mAcquireCalled (hd (mQueue c))
                 then (hd (mQueue c))\<lparr>item_mGraphicBuffer := None\<rparr> else hd (mQueue c)) \<and>
         mQueue (ar_core (acquireBuffer c 0 maxFrameNumber)) = tl (mQueue c) \<and>
         (stillTracking c (hd (mQueue c)) \<longrightarrow>
            mBufferState (mSlots (ar_core (acquireBuffer c 0 maxFrameNumber)) !
                          nat (item_mSlot (hd (mQueue c)))) = ACQUIRED) \<and>
         acquireBuffer c 0 maxFrameNumber = acquireBuffer c 0 0"
  using assms
  by (simp add: acquireBuffer_def dropPhase_def acquireFront_def Let_def stillTracking_def)

theorem acquire_greedy_ignores_maxFrameNumber_witness:
  "ar_status (acquireBuffer exGate 0 4) = NO_ERROR \<and>
   ar_outBuffer (acquireBuffer exGate 0 4) = Some (exItem 3 30 1000 True 5) \<and>
   mQueue (ar_core (acquireBuffer exGate 0 4)) = [] \<and>
   mBufferState (mSlots (ar_core (acquireBuffer exGate 0 4)) ! 3) = ACQUIRED"
proof -
  have q: "mQueue exGate \<noteq> []"
    by code_simp
  have n: "numAcquiredBuffers exGate < mMaxAcquiredBufferCount exGate + 1"
    by code_simp
  have t: "stillTracking exGate (hd (mQueue exGate))"
    by code_simp
  have h: "hd (mQueue exGate) = exItem 3 30 1000 True 5"
    by code_simp
  have a: "\<not> item_mAcquireCalled (exItem 3 30 1000 True 5)"
    by code_simp
  have s: "nat (item_mSlot (exItem 3 30 1000 True 5)) = 3"
    by code_simp
  have e: "tl (mQueue exGate) = []"
    by code_simp
  note th = acquire_greedy_ignores_maxFrameNumber [OF q n, of 4, unfolded h s e]
  note th1 = th [THEN conjunct1]
  note th2 = th [THEN conjunct2, THEN conjunct1]
  note th3 = th [THEN conjunct2, THEN conjunct2, THEN conjunct1]
  note th4 = th [THEN conjunct2, THEN conjunct2, THEN conjunct2, THEN conjunct1]
  from th2 a have o: "ar_outBuffer (acquireBuffer exGate 0 4) = Some (exItem 3 30 1000 True 5)"
    by simp
  from th4 t [unfolded h]
  have "mBufferState (mSlots (ar_core (acquireBuffer exGate 0 4)) ! 3) = ACQUIRED"
    by simp
  with th1 o th3 show ?thesis
    by simp
qed

lemma dropFront_fst_indep:
  "fst (dropFront (c, l, n)) = fst (dropFront (c, l', n'))"
  by (simp add: dropFront_def)

lemma dropFront_keeps_cap:
  "mMaxAcquiredBufferCount (fst (dropFront st)) = mMaxAcquiredBufferCount (fst st)"
  by (cases st) (simp add: dropFront_def)

text \<open>The core that the loop leaves does not depend on the listener and the count so far.\<close>

lemma dropLoop_fst_indep:
  "fst (dropLoop e m (c, l', n')) = fst (dropLoop e m (c, l, n))"
proof -
  have "\<forall>l' n'. fst (dropLoop e m (fst st, l', n')) = fst (dropLoop e m st)" for st
  proof (rule dropLoop_rule [where Q = "\<lambda>st r.
           \<forall>l' n'. fst (dropLoop e m (fst st, l', n')) = fst r"])
    fix st :: "BufferQueueCore \<times> listener option \<times> nat"
    assume stop: "\<not> spec_dropCondition e m (mQueue (fst st))"
    show "\<forall>l' n'. fst (dropLoop e m (fst st, l', n')) = fst st"
    proof (intro allI)
      fix l' n'
      from stop show "fst (dropLoop e m (fst st, l', n')) = fst st"
        using dropLoop_unfold [of e m "(fst st, l', n')"] by simp
    qed
  next
    fix st r :: "BufferQueueCore \<times> listener option \<times> nat"
    assume d: "spec_dropCondition e m (mQueue (fst st))"
      and ih: "\<forall>l' n'. fst (dropLoop e m (fst (dropFront st), l', n')) = fst r"
    show "\<forall>l' n'. fst (dropLoop e m (fst st, l', n')) = fst r"
    proof (intro allI)
      fix l' n'
      from d have 1: "dropLoop e m (fst st, l', n') = dropLoop e m (dropFront (fst st, l', n'))"
        using dropLoop_unfold [of e m "(fst st, l', n')"] by simp
      have "fst (dropFront (fst st, l', n')) = fst (dropFront st)"
        using dropFront_fst_indep [where c = "fst st" and l = l' and n = n'
                and l' = "fst (snd st)" and n' = "snd (snd st)"] by simp
      then have 2: "dropFront (fst st, l', n') =
          (fst (dropFront st), fst (snd (dropFront (fst st, l', n'))),
           snd (snd (dropFront (fst st, l', n'))))"
        by (simp add: prod_eq_iff)
      from ih have "fst (dropLoop e m (fst (dropFront st),
           fst (snd (dropFront (fst st, l', n'))), snd (snd (dropFront (fst st, l', n'))))) = fst r"
        by blast
      with 1 2 show "fst (dropLoop e m (fst st, l', n')) = fst r"
        by simp
    qed
  qed
  from this [of "(c, l, n)"] show ?thesis
    by simp
qed

text \<open>
  C3. In \<open>acquireBuffer\<close> with \<open>expectedPresent \<noteq> 0\<close> (and a queue that is not empty and
  the acquired-count cap not reached, without which the call returns before the loop), the
  front entry is dropped exactly when the specification's condition holds. When it holds,
  the call erases the front entry without returning it: a front entry that is still tracked
  has its slot marked FREE, every other slot left as it was, and the slot appended to
  \<open>mFreeBuffers\<close>; one that is not tracked is only erased; then the call goes on as a call
  from the state after the drop does (same status, same core, same output), which is the
  loop repeating while the condition holds, and it ends with \<open>NO_ERROR\<close> and a queue at
  least two entries shorter. When the condition does not hold nothing is dropped: nothing is
  pushed onto \<open>mFreeBuffers\<close>, and either the call defers and the core is unchanged, or the
  front entry itself is the one returned and popped. With an auto-timestamped front entry
  the condition never holds, whatever the timestamps are. The window
  \<open>expected_present - 10^9 \<le> desired \<le> expected_present\<close> is the one of the integers
  whenever \<open>expected_present - 10^9\<close> is an \<open>int64_t\<close>, in particular for the positive times
  that the source assumes.
\<close>

theorem acquire_drops_front_exactly_when_timely:
  assumes e0: "expectedPresent \<noteq> 0"
    and q: "mQueue c \<noteq> []"
    and cap: "numAcquiredBuffers c < mMaxAcquiredBufferCount c + 1"
  shows
  "(spec_dropCondition expectedPresent maxFrameNumber (mQueue c) \<longrightarrow>
      ar_status (acquireBuffer c expectedPresent maxFrameNumber) = NO_ERROR \<and>
      ar_status (acquireBuffer (fst (dropFront (c, None, 0))) expectedPresent maxFrameNumber)
        = NO_ERROR \<and>
      ar_core (acquireBuffer c expectedPresent maxFrameNumber) =
        ar_core (acquireBuffer (fst (dropFront (c, None, 0))) expectedPresent maxFrameNumber) \<and>
      ar_outBuffer (acquireBuffer c expectedPresent maxFrameNumber) =
        ar_outBuffer (acquireBuffer (fst (dropFront (c, None, 0))) expectedPresent maxFrameNumber) \<and>
      length (mQueue (ar_core (acquireBuffer c expectedPresent maxFrameNumber))) + 2
        \<le> length (mQueue c) \<and>
      mQueue (fst (dropFront (c, None, 0))) = tl (mQueue c) \<and>
      (stillTracking c (hd (mQueue c)) \<longrightarrow>
         mBufferState (mSlots (fst (dropFront (c, None, 0))) ! nat (item_mSlot (hd (mQueue c))))
           = FREE \<and>
         (\<forall>s. s \<noteq> nat (item_mSlot (hd (mQueue c))) \<longrightarrow>
              mSlots (fst (dropFront (c, None, 0))) ! s = mSlots c ! s) \<and>
         mFreeBuffers (fst (dropFront (c, None, 0))) =
           mFreeBuffers c @ [item_mSlot (hd (mQueue c))]) \<and>
      (\<not> stillTracking c (hd (mQueue c)) \<longrightarrow>
         mSlots (fst (dropFront (c, None, 0))) = mSlots c \<and>
         mFreeBuffers (fst (dropFront (c, None, 0))) = mFreeBuffers c)) \<and>
   (\<not> spec_dropCondition expectedPresent maxFrameNumber (mQueue c) \<longrightarrow>
      dropPhase c expectedPresent maxFrameNumber = (c, None, 0) \<and>
      mFreeBuffers (ar_core (acquireBuffer c expectedPresent maxFrameNumber)) = mFreeBuffers c \<and>
      (ar_status (acquireBuffer c expectedPresent maxFrameNumber) = PRESENT_LATER \<and>
       ar_core (acquireBuffer c expectedPresent maxFrameNumber) = c \<or>
       ar_status (acquireBuffer c expectedPresent maxFrameNumber) = NO_ERROR \<and>
       mQueue (ar_core (acquireBuffer c expectedPresent maxFrameNumber)) = tl (mQueue c) \<and>
       ar_outBuffer (acquireBuffer c expectedPresent maxFrameNumber) =
         Some (if item_mAcquireCalled (hd (mQueue c))
               then (hd (mQueue c))\<lparr>item_mGraphicBuffer := None\<rparr> else hd (mQueue c)))) \<and>
   (item_mIsAutoTimestamp (hd (mQueue c)) \<longrightarrow>
      \<not> spec_dropCondition expectedPresent maxFrameNumber (mQueue c)) \<and>
   dropPhase c expectedPresent maxFrameNumber =
     (if spec_dropCondition expectedPresent maxFrameNumber (mQueue c)
      then dropLoop expectedPresent maxFrameNumber (dropFront (c, None, 0))
      else (c, None, 0)) \<and>
   (- (2 ^ 63) + 1000000000 \<le> sint expectedPresent \<longrightarrow>
      spec_dropCondition expectedPresent maxFrameNumber (mQueue c) =
        (length (mQueue c) > 1 \<and> \<not> item_mIsAutoTimestamp (mQueue c ! 0) \<and>
         (maxFrameNumber = 0 \<or> item_mFrameNumber (mQueue c ! 1) \<le> maxFrameNumber) \<and>
         sint expectedPresent - 1000000000 \<le> sint (item_mTimestamp (mQueue c ! 1)) \<and>
         sint (item_mTimestamp (mQueue c ! 1)) \<le> sint expectedPresent))"
proof -
  let ?e = expectedPresent and ?m = maxFrameNumber
  let ?c' = "fst (dropFront (c, None, 0))"
  have ints: "- (2 ^ 63) + 1000000000 \<le> sint ?e \<longrightarrow>
      spec_dropCondition ?e ?m (mQueue c) =
        (length (mQueue c) > 1 \<and> \<not> item_mIsAutoTimestamp (mQueue c ! 0) \<and>
         (?m = 0 \<or> item_mFrameNumber (mQueue c ! 1) \<le> ?m) \<and>
         sint ?e - 1000000000 \<le> sint (item_mTimestamp (mQueue c ! 1)) \<and>
         sint (item_mTimestamp (mQueue c ! 1)) \<le> sint ?e)"
    by (simp add: spec_dropCondition_def word_sle_eq sint_sub_nsec)
  have auto_ts: "item_mIsAutoTimestamp (hd (mQueue c)) \<longrightarrow> \<not> spec_dropCondition ?e ?m (mQueue c)"
    using q by (auto simp: spec_dropCondition_def hd_conv_nth)
  have phase: "dropPhase c ?e ?m =
     (if spec_dropCondition ?e ?m (mQueue c)
      then dropLoop ?e ?m (dropFront (c, None, 0)) else (c, None, 0))"
    using e0 dropLoop_unfold [of ?e ?m "(c, None, 0)"] by (simp add: dropPhase_def)
  have erase: "mQueue ?c' = tl (mQueue c)"
    by (simp add: mQueue_dropFront)
  have tracked: "stillTracking c (hd (mQueue c)) \<longrightarrow>
      mBufferState (mSlots ?c' ! nat (item_mSlot (hd (mQueue c)))) = FREE \<and>
      (\<forall>s. s \<noteq> nat (item_mSlot (hd (mQueue c))) \<longrightarrow> mSlots ?c' ! s = mSlots c ! s) \<and>
      mFreeBuffers ?c' = mFreeBuffers c @ [item_mSlot (hd (mQueue c))]"
    by (auto simp: dropFront_def stillTracking_def)
  have untracked: "\<not> stillTracking c (hd (mQueue c)) \<longrightarrow>
      mSlots ?c' = mSlots c \<and> mFreeBuffers ?c' = mFreeBuffers c"
    by (simp add: dropFront_def)
  have nodrop: "\<not> spec_dropCondition ?e ?m (mQueue c) \<longrightarrow>
      dropPhase c ?e ?m = (c, None, 0) \<and>
      mFreeBuffers (ar_core (acquireBuffer c ?e ?m)) = mFreeBuffers c \<and>
      (ar_status (acquireBuffer c ?e ?m) = PRESENT_LATER \<and>
       ar_core (acquireBuffer c ?e ?m) = c \<or>
       ar_status (acquireBuffer c ?e ?m) = NO_ERROR \<and>
       mQueue (ar_core (acquireBuffer c ?e ?m)) = tl (mQueue c) \<and>
       ar_outBuffer (acquireBuffer c ?e ?m) =
         Some (if item_mAcquireCalled (hd (mQueue c))
               then (hd (mQueue c))\<lparr>item_mGraphicBuffer := None\<rparr> else hd (mQueue c)))"
  proof
    assume "\<not> spec_dropCondition ?e ?m (mQueue c)"
    with phase have dp: "dropPhase c ?e ?m = (c, None, 0)"
      by simp
    with q cap show "dropPhase c ?e ?m = (c, None, 0) \<and>
      mFreeBuffers (ar_core (acquireBuffer c ?e ?m)) = mFreeBuffers c \<and>
      (ar_status (acquireBuffer c ?e ?m) = PRESENT_LATER \<and>
       ar_core (acquireBuffer c ?e ?m) = c \<or>
       ar_status (acquireBuffer c ?e ?m) = NO_ERROR \<and>
       mQueue (ar_core (acquireBuffer c ?e ?m)) = tl (mQueue c) \<and>
       ar_outBuffer (acquireBuffer c ?e ?m) =
         Some (if item_mAcquireCalled (hd (mQueue c))
               then (hd (mQueue c))\<lparr>item_mGraphicBuffer := None\<rparr> else hd (mQueue c)))"
      by (simp add: acquireBuffer_def acquireFail_def acquireFront_def Let_def)
  qed
  have drop: "spec_dropCondition ?e ?m (mQueue c) \<longrightarrow>
      ar_status (acquireBuffer c ?e ?m) = NO_ERROR \<and>
      ar_status (acquireBuffer ?c' ?e ?m) = NO_ERROR \<and>
      ar_core (acquireBuffer c ?e ?m) = ar_core (acquireBuffer ?c' ?e ?m) \<and>
      ar_outBuffer (acquireBuffer c ?e ?m) = ar_outBuffer (acquireBuffer ?c' ?e ?m) \<and>
      length (mQueue (ar_core (acquireBuffer c ?e ?m))) + 2 \<le> length (mQueue c)"
  proof
    assume d: "spec_dropCondition ?e ?m (mQueue c)"
    obtain c1 l n where c1: "dropLoop ?e ?m (dropFront (c, None, 0)) = (c1, l, n)"
      by (cases "dropLoop ?e ?m (dropFront (c, None, 0))") auto
    from d phase c1 have dp: "dropPhase c ?e ?m = (c1, l, n)"
      by simp
    from d have acc0: "frontAccepted ?e ?m ?c'"
      using dropCondition_frontAccepted [of ?e ?m "(c, None, 0)"] by simp
    have c1_fst: "c1 = fst (dropLoop ?e ?m (dropFront (c, None, 0)))"
      by (simp add: c1)
    from dropLoop_same_or_accepted [of ?e ?m "dropFront (c, None, 0)"] acc0
    have acc: "frontAccepted ?e ?m c1"
      unfolding c1_fst by auto
    note ok = frontAccepted_due_ready [OF acc]
    from q cap e0 ok have r: "acquireBuffer c ?e ?m = acquireFront c1 l n"
      by (simp add: acquireBuffer_def dp)
    from d have q': "mQueue ?c' \<noteq> []"
      by (cases "mQueue c") (auto simp: erase spec_dropCondition_def)
    have "numAcquiredBuffers ?c' \<le> numAcquiredBuffers c"
      using dropFront_slots [of "(c, None, 0)"] by (intro numAcquiredBuffers_mono) simp
    with cap have cap': "numAcquiredBuffers ?c' < mMaxAcquiredBufferCount ?c' + 1"
      using dropFront_keeps_cap [of "(c, None, 0)"] by simp
    have "dropFront (c, None, 0) =
        (?c', fst (snd (dropFront (c, None, 0))), snd (snd (dropFront (c, None, 0))))"
      by (simp add: prod_eq_iff)
    then have "fst (dropLoop ?e ?m (?c', None, 0)) = fst (dropLoop ?e ?m (dropFront (c, None, 0)))"
      using dropLoop_fst_indep [where e = ?e and m = ?m and c = ?c' and l' = None and n' = 0
              and l = "fst (snd (dropFront (c, None, 0)))"
              and n = "snd (snd (dropFront (c, None, 0)))"]
      by simp
    then obtain l' n' where c1': "dropLoop ?e ?m (?c', None, 0) = (c1, l', n')"
      using c1 by (cases "dropLoop ?e ?m (?c', None, 0)") auto
    with e0 have dp': "dropPhase ?c' ?e ?m = (c1, l', n')"
      by (simp add: dropPhase_def)
    from q' cap' e0 ok have r': "acquireBuffer ?c' ?e ?m = acquireFront c1 l' n'"
      by (simp add: acquireBuffer_def dp')
    have ne: "mQueue c1 \<noteq> []"
      using dropLoop_nonempty [of "dropFront (c, None, 0)" ?e ?m] q' c1 by simp
    from dropLoop_accounting [of ?e ?m "dropFront (c, None, 0)"] c1
    have "length (mQueue c1) \<le> length (mQueue ?c')"
      by auto
    with ne q have len: "length (tl (mQueue c1)) + 2 \<le> length (mQueue c)"
      by (cases "mQueue c1"; cases "mQueue c") (auto simp: erase)
    show "ar_status (acquireBuffer c ?e ?m) = NO_ERROR \<and>
      ar_status (acquireBuffer ?c' ?e ?m) = NO_ERROR \<and>
      ar_core (acquireBuffer c ?e ?m) = ar_core (acquireBuffer ?c' ?e ?m) \<and>
      ar_outBuffer (acquireBuffer c ?e ?m) = ar_outBuffer (acquireBuffer ?c' ?e ?m) \<and>
      length (mQueue (ar_core (acquireBuffer c ?e ?m))) + 2 \<le> length (mQueue c)"
      unfolding r r' using len by (simp add: acquireFront_def Let_def)
  qed
  from drop nodrop auto_ts phase ints erase tracked untracked show ?thesis
    by blast
qed

theorem acquire_drops_front_exactly_when_timely_witness:
  "spec_dropCondition 2000000000 0 (mQueue exDrop) \<and>
   stillTracking exDrop (hd (mQueue exDrop)) \<and>
   ar_status (acquireBuffer exDrop 2000000000 0) = NO_ERROR \<and>
   length (mQueue (ar_core (acquireBuffer exDrop 2000000000 0))) + 2 \<le> 2 \<and>
   mBufferState (mSlots (fst (dropFront (exDrop, None, 0))) ! 3) = FREE \<and>
   mFreeBuffers (fst (dropFront (exDrop, None, 0))) = [3] \<and>
   mQueue (fst (dropFront (exDrop, None, 0))) = [exItem 7 70 2000000000 False 2]"
proof -
  have z: "(2000000000 :: nsecs_t) \<noteq> 0"
    by simp
  have q: "mQueue exDrop \<noteq> []"
    by code_simp
  have n: "numAcquiredBuffers exDrop < mMaxAcquiredBufferCount exDrop + 1"
    by code_simp
  have d: "spec_dropCondition 2000000000 0 (mQueue exDrop)"
    by code_simp
  have t: "stillTracking exDrop (hd (mQueue exDrop))"
    by code_simp
  have s: "nat (item_mSlot (hd (mQueue exDrop))) = 3"
    by code_simp
  have f: "mFreeBuffers exDrop @ [item_mSlot (hd (mQueue exDrop))] = [3]"
    by code_simp
  have tq: "tl (mQueue exDrop) = [exItem 7 70 2000000000 False 2]"
    by code_simp
  have lq: "length (mQueue exDrop) = 2"
    by code_simp
  note th = acquire_drops_front_exactly_when_timely [OF z q n, of 0, THEN conjunct1, THEN mp, OF d]
  note st = th [THEN conjunct1]
  note len = th [THEN conjunct2, THEN conjunct2, THEN conjunct2, THEN conjunct2, THEN conjunct1]
  note er = th [THEN conjunct2, THEN conjunct2, THEN conjunct2, THEN conjunct2, THEN conjunct2,
                THEN conjunct1]
  note tr = th [THEN conjunct2, THEN conjunct2, THEN conjunct2, THEN conjunct2, THEN conjunct2,
                THEN conjunct2, THEN conjunct1, THEN mp, OF t]
  from tr have 1: "mBufferState (mSlots (fst (dropFront (exDrop, None, 0))) ! 3) = FREE"
    unfolding s by (rule conjunct1)
  from tr have 2: "mFreeBuffers (fst (dropFront (exDrop, None, 0))) = [3]"
    unfolding f by (rule conjunct2 [THEN conjunct2])
  from er have 3: "mQueue (fst (dropFront (exDrop, None, 0))) = [exItem 7 70 2000000000 False 2]"
    unfolding tq .
  from len have 4: "length (mQueue (ar_core (acquireBuffer exDrop 2000000000 0))) + 2 \<le> 2"
    unfolding lq .
  from d t st 1 2 3 4 show ?thesis
    by (simp only: simp_thms)
qed

text \<open>
  C4. In \<open>acquireBuffer\<close> with \<open>expectedPresent \<noteq> 0\<close>, a non-empty queue and
  the acquired-count cap not reached, the call returns \<open>PRESENT_LATER\<close> if and only if the
  final front entry fails \<open>buffer_is_due\<close> (\<open>desired \<le> expected_present\<close> or
  \<open>desired > expected_present + 10^9\<close>) or fails \<open>consumer_is_ready\<close>
  (\<open>max_frame_number = 0\<close> or \<open>frame_number \<le> max_frame_number\<close>), and otherwise it returns
  \<open>NO_ERROR\<close>. A call whose \<open>expectedPresent\<close> equals the front entry's timestamp is accepted
  when that entry also passes \<open>consumer_is_ready\<close>. The comparison with
  \<open>expected_present + 10^9\<close> is the one of the integers whenever that sum is an \<open>int64_t\<close>.
\<close>

theorem present_later_iff_not_due_or_not_ready:
  assumes "expectedPresent \<noteq> 0"
    and "mQueue c \<noteq> []"
    and "numAcquiredBuffers c < mMaxAcquiredBufferCount c + 1"
  shows "(ar_status (acquireBuffer c expectedPresent maxFrameNumber) = PRESENT_LATER \<longleftrightarrow>
            \<not> (item_mTimestamp (finalFront c expectedPresent maxFrameNumber) \<le>s expectedPresent \<or>
               expectedPresent + 1000000000 <s
                 item_mTimestamp (finalFront c expectedPresent maxFrameNumber)) \<or>
            \<not> (maxFrameNumber = 0 \<or>
               item_mFrameNumber (finalFront c expectedPresent maxFrameNumber) \<le> maxFrameNumber)) \<and>
         (ar_status (acquireBuffer c expectedPresent maxFrameNumber) \<noteq> PRESENT_LATER \<longrightarrow>
            ar_status (acquireBuffer c expectedPresent maxFrameNumber) = NO_ERROR) \<and>
         (item_mTimestamp (hd (mQueue c)) = expectedPresent \<and>
          (maxFrameNumber = 0 \<or> item_mFrameNumber (hd (mQueue c)) \<le> maxFrameNumber) \<longrightarrow>
            ar_status (acquireBuffer c expectedPresent maxFrameNumber) = NO_ERROR) \<and>
         (sint expectedPresent \<le> 2 ^ 63 - 1 - 1000000000 \<longrightarrow>
            (expectedPresent + 1000000000 <s
               item_mTimestamp (finalFront c expectedPresent maxFrameNumber)) =
            (sint expectedPresent + 1000000000 <
               sint (item_mTimestamp (finalFront c expectedPresent maxFrameNumber))))"
proof -
  obtain c1 l n where dp: "dropPhase c expectedPresent maxFrameNumber = (c1, l, n)"
    by (cases "dropPhase c expectedPresent maxFrameNumber") auto
  have ff: "finalFront c expectedPresent maxFrameNumber = hd (mQueue c1)"
    by (simp add: finalFront_def dp)
  have ready: "consumerIsReady fn maxFrameNumber = (maxFrameNumber = 0 \<or> fn \<le> maxFrameNumber)" for fn
    by (auto simp: consumerIsReady_def word_gt_0)
  have iff: "ar_status (acquireBuffer c expectedPresent maxFrameNumber) = PRESENT_LATER \<longleftrightarrow>
            \<not> (item_mTimestamp (hd (mQueue c1)) \<le>s expectedPresent \<or>
               expectedPresent + 1000000000 <s item_mTimestamp (hd (mQueue c1))) \<or>
            \<not> (maxFrameNumber = 0 \<or> item_mFrameNumber (hd (mQueue c1)) \<le> maxFrameNumber)"
    using assms
    by (simp add: acquireBuffer_def acquireFail_def acquireFront_def dp Let_def
                  bufferIsDue_def ready MAX_REASONABLE_NSEC_def)
  have other: "ar_status (acquireBuffer c expectedPresent maxFrameNumber) \<noteq> PRESENT_LATER \<longrightarrow>
            ar_status (acquireBuffer c expectedPresent maxFrameNumber) = NO_ERROR"
    using assms
    by (simp add: acquireBuffer_def acquireFail_def acquireFront_def dp Let_def)
  have "(c1, l, n) = (c, None, 0) \<or> frontAccepted expectedPresent maxFrameNumber c1"
    using dropPhase_same_or_accepted [of c expectedPresent maxFrameNumber] dp by simp
  then have "item_mTimestamp (hd (mQueue c)) = expectedPresent \<and>
          (maxFrameNumber = 0 \<or> item_mFrameNumber (hd (mQueue c)) \<le> maxFrameNumber) \<longrightarrow>
          frontAccepted expectedPresent maxFrameNumber c1"
    by (auto simp: frontAccepted_def)
  then have equal: "item_mTimestamp (hd (mQueue c)) = expectedPresent \<and>
          (maxFrameNumber = 0 \<or> item_mFrameNumber (hd (mQueue c)) \<le> maxFrameNumber) \<longrightarrow>
            ar_status (acquireBuffer c expectedPresent maxFrameNumber) = NO_ERROR"
    using iff other by (auto simp: frontAccepted_def)
  have ints: "sint expectedPresent \<le> 2 ^ 63 - 1 - 1000000000 \<longrightarrow>
            (expectedPresent + 1000000000 <s item_mTimestamp (hd (mQueue c1))) =
            (sint expectedPresent + 1000000000 < sint (item_mTimestamp (hd (mQueue c1))))"
    by (simp add: word_sless_alt sint_add_nsec)
  from iff other equal ints show ?thesis
    unfolding ff by blast
qed

theorem present_later_iff_not_due_or_not_ready_witness:
  "ar_status (acquireBuffer exLater 1500000000 0) = NO_ERROR \<and>
   ar_status (acquireBuffer exLater 1000000000 0) = PRESENT_LATER"
proof -
  have z: "(1500000000 :: nsecs_t) \<noteq> 0" "(1000000000 :: nsecs_t) \<noteq> 0"
    by simp_all
  have q: "mQueue exLater \<noteq> []"
    by code_simp
  have n: "numAcquiredBuffers exLater < mMaxAcquiredBufferCount exLater + 1"
    by code_simp
  have t: "item_mTimestamp (hd (mQueue exLater)) = 1500000000"
    by code_simp
  have d: "\<not> (item_mTimestamp (finalFront exLater 1000000000 0) \<le>s 1000000000 \<or>
              1000000000 + 1000000000 <s item_mTimestamp (finalFront exLater 1000000000 0))"
    by code_simp
  from present_later_iff_not_due_or_not_ready [OF z(1) q n, of 0] t
  have 1: "ar_status (acquireBuffer exLater 1500000000 0) = NO_ERROR"
    by simp
  from present_later_iff_not_due_or_not_ready [OF z(2) q n, of 0] d
  have 2: "ar_status (acquireBuffer exLater 1000000000 0) = PRESENT_LATER"
    by blast
  from 1 2 show ?thesis
    by simp
qed

text \<open>
  C7, as amended. For every call of \<open>acquireBuffer\<close>, the connected producer listener's
  \<open>onBufferReleased\<close> is invoked, after the lock is released, exactly once per slot that the
  drop loop freed during that call, that is once per dropped entry whose slot was still
  tracked (as many times as the call appended slots to \<open>mFreeBuffers\<close>), whatever status the
  call returns; a dropped entry that is no longer tracked brings no call, so on success the
  calls are at most the dropped entries; with no producer listener connected there is no
  call.
\<close>

theorem listener_called_once_per_freed_slot:
  "take (length (mFreeBuffers c)) (mFreeBuffers (ar_core (acquireBuffer c expectedPresent maxFrameNumber)))
     = mFreeBuffers c \<and>
   ar_events (acquireBuffer c expectedPresent maxFrameNumber) =
     (if ar_status (acquireBuffer c expectedPresent maxFrameNumber) = NO_ERROR
      then [MutexLock, DequeueConditionBroadcast, MutexUnlock] else [MutexLock, MutexUnlock]) @
     (case mConnectedProducerListener c of
        None \<Rightarrow> []
      | Some l \<Rightarrow>
          replicate
            (length (mFreeBuffers (ar_core (acquireBuffer c expectedPresent maxFrameNumber)))
               - length (mFreeBuffers c))
            (OnBufferReleased l)) \<and>
   (ar_status (acquireBuffer c expectedPresent maxFrameNumber) = NO_ERROR \<longrightarrow>
      (length (mFreeBuffers (ar_core (acquireBuffer c expectedPresent maxFrameNumber)))
         - length (mFreeBuffers c))
      + 1 + length (mQueue (ar_core (acquireBuffer c expectedPresent maxFrameNumber)))
      \<le> length (mQueue c))"
proof -
  obtain c1 l n where dp: "dropPhase c expectedPresent maxFrameNumber = (c1, l, n)"
    by (cases "dropPhase c expectedPresent maxFrameNumber") auto
  from dropPhase_accounting [of c expectedPresent maxFrameNumber]
  obtain xs where xs: "mFreeBuffers c1 = mFreeBuffers c @ xs" "n = length xs"
      "l = (if xs = [] then None else mConnectedProducerListener c)"
      "length xs + length (mQueue c1) \<le> length (mQueue c)"
    unfolding dp by auto
  have keep: "(c1, l, n) = (c, None, 0) \<or> frontAccepted expectedPresent maxFrameNumber c1"
    using dropPhase_same_or_accepted [of c expectedPresent maxFrameNumber] dp by simp
  show ?thesis
  proof (cases "numAcquiredBuffers c \<ge> mMaxAcquiredBufferCount c + 1 \<or> mQueue c = []")
    case True
    then show ?thesis
      by (auto simp: acquireBuffer_def acquireFail_def split: option.splits)
  next
    case False
    then have ne: "mQueue c1 \<noteq> []"
      using dropPhase_nonempty [of c expectedPresent maxFrameNumber] dp by simp
    show ?thesis
    proof (cases "expectedPresent \<noteq> 0 \<and>
                (\<not> bufferIsDue (item_mTimestamp (hd (mQueue c1))) expectedPresent \<or>
                 \<not> consumerIsReady (item_mFrameNumber (hd (mQueue c1))) maxFrameNumber)")
      case True
      with keep frontAccepted_due_ready [of expectedPresent maxFrameNumber c1]
      have "c1 = c"
        by auto
      with True False show ?thesis
        by (auto simp: acquireBuffer_def acquireFail_def dp split: option.splits)
    next
      case accept: False
      have r: "acquireBuffer c expectedPresent maxFrameNumber = acquireFront c1 l n"
        using False accept by (auto simp: acquireBuffer_def dp)
      have fb: "mFreeBuffers (ar_core (acquireFront c1 l n)) = mFreeBuffers c @ xs"
        by (simp add: acquireFront_def Let_def xs(1))
      have st: "ar_status (acquireFront c1 l n) = NO_ERROR"
        by (simp add: acquireFront_def Let_def)
      have q: "length (mQueue (ar_core (acquireFront c1 l n))) + 1 = length (mQueue c1)"
        using ne by (simp add: acquireFront_def Let_def)
      have ev: "ar_events (acquireFront c1 l n) =
          [MutexLock, DequeueConditionBroadcast, MutexUnlock] @
          (case mConnectedProducerListener c of
             None \<Rightarrow> []
           | Some l' \<Rightarrow> replicate (length xs) (OnBufferReleased l'))"
        by (cases "xs = []") (auto simp: acquireFront_def Let_def xs(2,3) split: option.splits)
      have k: "length (mFreeBuffers (ar_core (acquireFront c1 l n))) - length (mFreeBuffers c)
                 = length xs"
        by (simp add: fb)
      from fb st q ev xs(4) show ?thesis
        unfolding r k by simp
    qed
  qed
qed

theorem listener_called_once_per_freed_slot_witness:
  "ar_status (acquireBuffer exDrop 2000000000 0) = NO_ERROR \<and>
   mFreeBuffers (ar_core (acquireBuffer exDrop 2000000000 0)) = [3] \<and>
   ar_events (acquireBuffer exDrop 2000000000 0) =
     [MutexLock, DequeueConditionBroadcast, MutexUnlock, OnBufferReleased 7]"
proof -
  have st: "ar_status (acquireBuffer exDrop 2000000000 0) = NO_ERROR"
    by code_simp
  have fb: "mFreeBuffers (ar_core (acquireBuffer exDrop 2000000000 0)) = [3]"
    by code_simp
  have f0: "mFreeBuffers exDrop = []"
    by code_simp
  have li: "mConnectedProducerListener exDrop = Some 7"
    by code_simp
  from listener_called_once_per_freed_slot [of exDrop 2000000000 0] st fb
  show ?thesis
    by (simp add: f0 li)
qed

text \<open>
  C7 as it was stated fails where a dropped entry is no longer tracked: that entry is erased
  (line 139) outside the branch that counts the drop (lines 132 to 138). Here the loop drops
  F1 and the call returns F2, with a producer listener connected, and the listener is not
  called.
\<close>

theorem untracked_drop_not_notified:
  "mConnectedProducerListener exUntracked = Some 7 \<and>
   mQueue exUntracked = [exItem 3 30 1000000000 False 1, exItem 7 70 2000000000 False 2] \<and>
   dropPhase exUntracked 2000000000 0 =
     (exUntracked\<lparr>mQueue := [exItem 7 70 2000000000 False 2]\<rparr>, None, 0) \<and>
   ar_status (acquireBuffer exUntracked 2000000000 0) = NO_ERROR \<and>
   ar_outBuffer (acquireBuffer exUntracked 2000000000 0) = Some (exItem 7 70 2000000000 False 2) \<and>
   mQueue (ar_core (acquireBuffer exUntracked 2000000000 0)) = [] \<and>
   ar_events (acquireBuffer exUntracked 2000000000 0) =
     [MutexLock, DequeueConditionBroadcast, MutexUnlock]"
  by code_simp

text \<open>
  C10. If \<open>acquireBuffer\<close> reaches the success path (it returns none of the three early
  statuses) and the front entry is no longer tracked, the entry is copied to the output
  (without its buffer when its \<open>mAcquireCalled\<close> is set), popped from the queue, and the
  status is \<open>NO_ERROR\<close>, while the success path changes no slot: the slot table and the
  acquired count are those left by the drop loop. Over the whole call no slot becomes
  ACQUIRED, \<open>mAcquireCalled\<close> changes on no slot, and the acquired count does not grow; it is
  unchanged when \<open>expectedPresent = 0\<close> or when no tracked queue entry sat in an ACQUIRED
  slot.
\<close>

theorem acquire_untracked_front_changes_no_slot:
  assumes "ar_status (acquireBuffer c expectedPresent maxFrameNumber)
             \<notin> {INVALID_OPERATION, NO_BUFFER_AVAILABLE, PRESENT_LATER}"
    and "\<not> stillTracking (fst (dropPhase c expectedPresent maxFrameNumber))
             (finalFront c expectedPresent maxFrameNumber)"
  shows "ar_status (acquireBuffer c expectedPresent maxFrameNumber) = NO_ERROR \<and>
         ar_outBuffer (acquireBuffer c expectedPresent maxFrameNumber) =
           Some (if item_mAcquireCalled (finalFront c expectedPresent maxFrameNumber)
                 then (finalFront c expectedPresent maxFrameNumber)\<lparr>item_mGraphicBuffer := None\<rparr>
                 else finalFront c expectedPresent maxFrameNumber) \<and>
         mQueue (ar_core (acquireBuffer c expectedPresent maxFrameNumber)) =
           tl (mQueue (fst (dropPhase c expectedPresent maxFrameNumber))) \<and>
         mSlots (ar_core (acquireBuffer c expectedPresent maxFrameNumber)) =
           mSlots (fst (dropPhase c expectedPresent maxFrameNumber)) \<and>
         numAcquiredBuffers (ar_core (acquireBuffer c expectedPresent maxFrameNumber)) =
           numAcquiredBuffers (fst (dropPhase c expectedPresent maxFrameNumber)) \<and>
         (\<forall>s. mBufferState (mSlots (ar_core (acquireBuffer c expectedPresent maxFrameNumber)) ! s)
                = ACQUIRED \<longrightarrow> mBufferState (mSlots c ! s) = ACQUIRED) \<and>
         (\<forall>s. mAcquireCalled (mSlots (ar_core (acquireBuffer c expectedPresent maxFrameNumber)) ! s)
                = mAcquireCalled (mSlots c ! s)) \<and>
         numAcquiredBuffers (ar_core (acquireBuffer c expectedPresent maxFrameNumber))
           \<le> numAcquiredBuffers c \<and>
         (expectedPresent = 0 \<or> queuedSlotsNotAcquired c \<longrightarrow>
            numAcquiredBuffers (ar_core (acquireBuffer c expectedPresent maxFrameNumber))
              = numAcquiredBuffers c) \<and>
         (expectedPresent = 0 \<longrightarrow>
            mSlots (ar_core (acquireBuffer c expectedPresent maxFrameNumber)) = mSlots c)"
proof -
  obtain c1 l n where dp: "dropPhase c expectedPresent maxFrameNumber = (c1, l, n)"
    by (cases "dropPhase c expectedPresent maxFrameNumber") auto
  have ff: "finalFront c expectedPresent maxFrameNumber = hd (mQueue c1)"
    by (simp add: finalFront_def dp)
  from assms(2) have nt: "\<not> stillTracking c1 (hd (mQueue c1))"
    by (simp add: dp ff)
  from assms(1) have r: "acquireBuffer c expectedPresent maxFrameNumber = acquireFront c1 l n"
    by (auto simp: acquireBuffer_def acquireFail_def dp split: if_splits)
  have core: "ar_core (acquireFront c1 l n) = c1\<lparr>mQueue := tl (mQueue c1)\<rparr>"
    using nt by (simp add: acquireFront_def Let_def)
  have cnt1: "numAcquiredBuffers (c1\<lparr>mQueue := tl (mQueue c1)\<rparr>) = numAcquiredBuffers c1"
    by (simp add: numAcquiredBuffers_def)
  have slots: "(\<forall>s. mAcquireCalled (mSlots c1 ! s) = mAcquireCalled (mSlots c ! s)) \<and>
      (\<forall>s. mBufferState (mSlots c1 ! s) = ACQUIRED \<longrightarrow> mBufferState (mSlots c ! s) = ACQUIRED)"
    using dropLoop_slots [of expectedPresent maxFrameNumber "(c, None, 0)"] dp
    by (cases "expectedPresent = 0") (auto simp: dropPhase_def)
  then have le: "numAcquiredBuffers c1 \<le> numAcquiredBuffers c"
    by (intro numAcquiredBuffers_mono) simp
  have zero: "expectedPresent = 0 \<longrightarrow> c1 = c"
    using dp by (auto simp: dropPhase_def)
  have inv: "queuedSlotsNotAcquired c \<longrightarrow> numAcquiredBuffers c1 = numAcquiredBuffers c"
    using dropLoop_keeps_count [of "(c, None, 0)" expectedPresent maxFrameNumber] dp
    by (cases "expectedPresent = 0") (auto simp: dropPhase_def)
  have out: "ar_status (acquireFront c1 l n) = NO_ERROR \<and>
      ar_outBuffer (acquireFront c1 l n) =
        Some (if item_mAcquireCalled (hd (mQueue c1))
              then (hd (mQueue c1))\<lparr>item_mGraphicBuffer := None\<rparr> else hd (mQueue c1))"
    by (simp add: acquireFront_def Let_def)
  from out slots le zero inv show ?thesis
    unfolding r ff core dp by (auto simp: cnt1)
qed

theorem acquire_untracked_front_changes_no_slot_witness:
  "ar_status (acquireBuffer exLost 1000 0) = NO_ERROR \<and>
   ar_outBuffer (acquireBuffer exLost 1000 0) = Some (exItem 3 30 1000 False 2) \<and>
   mQueue (ar_core (acquireBuffer exLost 1000 0)) = [] \<and>
   mSlots (ar_core (acquireBuffer exLost 1000 0)) = mSlots exLost \<and>
   numAcquiredBuffers (ar_core (acquireBuffer exLost 1000 0)) = 1"
proof -
  have st: "ar_status (acquireBuffer exLost 1000 0)
              \<notin> {INVALID_OPERATION, NO_BUFFER_AVAILABLE, PRESENT_LATER}"
    by code_simp
  have nt: "\<not> stillTracking (fst (dropPhase exLost 1000 0)) (finalFront exLost 1000 0)"
    by code_simp
  have ff: "finalFront exLost 1000 0 = exItem 3 30 1000 False 2"
    by code_simp
  have ac: "\<not> item_mAcquireCalled (exItem 3 30 1000 False 2)"
    by code_simp
  have dq: "tl (mQueue (fst (dropPhase exLost 1000 0))) = []"
    by code_simp
  have ds: "mSlots (fst (dropPhase exLost 1000 0)) = mSlots exLost"
    by code_simp
  have dn: "numAcquiredBuffers (fst (dropPhase exLost 1000 0)) = 1"
    by code_simp
  from acquire_untracked_front_changes_no_slot [OF st nt] ac show ?thesis
    unfolding ff dq ds dn by simp
qed

section \<open>Claims about releaseBuffer and attachBuffer\<close>

text \<open>
  C6. \<open>releaseBuffer\<close> with a slot index in range and a fence that is not null, on the
  64-entry slot table, behaves by cases in this order: a frame number other than the slot's
  gives \<open>STALE_BUFFER_SLOT\<close> and no change; else a queue entry for the slot gives
  \<open>BAD_VALUE\<close> and no change; else an ACQUIRED slot gets the release fence, the EGL
  display and the EGL fence, becomes FREE and is appended to \<open>mFreeBuffers\<close>, nothing else
  changes, and the status is \<open>NO_ERROR\<close>; else a slot with \<open>mNeedsCleanupOnRelease\<close> has
  that flag cleared, nothing else changes, and the status is \<open>STALE_BUFFER_SLOT\<close>; otherwise
  the status is \<open>BAD_VALUE\<close> and nothing changes.
\<close>

theorem release_by_cases:
  assumes "0 \<le> slot" and "slot < int NUM_BUFFER_SLOTS"
    and "releaseFence \<noteq> None"
    and "length (mSlots c) = NUM_BUFFER_SLOTS"
  shows "(frameNumber \<noteq> mFrameNumber (mSlots c ! nat slot) \<longrightarrow>
            cr_status (releaseBuffer c slot frameNumber releaseFence eglDisplay eglFence)
              = STALE_BUFFER_SLOT \<and>
            cr_core (releaseBuffer c slot frameNumber releaseFence eglDisplay eglFence) = c) \<and>
         (frameNumber = mFrameNumber (mSlots c ! nat slot) \<and>
          (\<exists>item \<in> set (mQueue c). item_mSlot item = slot) \<longrightarrow>
            cr_status (releaseBuffer c slot frameNumber releaseFence eglDisplay eglFence)
              = BAD_VALUE \<and>
            cr_core (releaseBuffer c slot frameNumber releaseFence eglDisplay eglFence) = c) \<and>
         (frameNumber = mFrameNumber (mSlots c ! nat slot) \<and>
          (\<forall>item \<in> set (mQueue c). item_mSlot item \<noteq> slot) \<and>
          mBufferState (mSlots c ! nat slot) = ACQUIRED \<longrightarrow>
            cr_status (releaseBuffer c slot frameNumber releaseFence eglDisplay eglFence)
              = NO_ERROR \<and>
            cr_core (releaseBuffer c slot frameNumber releaseFence eglDisplay eglFence) =
              c\<lparr>mSlots := (mSlots c)[nat slot := (mSlots c ! nat slot)
                     \<lparr>mEglDisplay := eglDisplay, mBufferState := FREE,
                      mEglFence := eglFence, mFence := releaseFence\<rparr>],
                 mFreeBuffers := mFreeBuffers c @ [slot]\<rparr> \<and>
            mSlots (cr_core (releaseBuffer c slot frameNumber releaseFence eglDisplay eglFence))
                ! nat slot =
              (mSlots c ! nat slot)
                     \<lparr>mEglDisplay := eglDisplay, mBufferState := FREE,
                      mEglFence := eglFence, mFence := releaseFence\<rparr>) \<and>
         (frameNumber = mFrameNumber (mSlots c ! nat slot) \<and>
          (\<forall>item \<in> set (mQueue c). item_mSlot item \<noteq> slot) \<and>
          mBufferState (mSlots c ! nat slot) \<noteq> ACQUIRED \<and>
          mNeedsCleanupOnRelease (mSlots c ! nat slot) \<longrightarrow>
            cr_status (releaseBuffer c slot frameNumber releaseFence eglDisplay eglFence)
              = STALE_BUFFER_SLOT \<and>
            cr_core (releaseBuffer c slot frameNumber releaseFence eglDisplay eglFence) =
              c\<lparr>mSlots := (mSlots c)[nat slot := (mSlots c ! nat slot)
                     \<lparr>mNeedsCleanupOnRelease := False\<rparr>]\<rparr> \<and>
            mSlots (cr_core (releaseBuffer c slot frameNumber releaseFence eglDisplay eglFence))
                ! nat slot =
              (mSlots c ! nat slot)\<lparr>mNeedsCleanupOnRelease := False\<rparr>) \<and>
         (frameNumber = mFrameNumber (mSlots c ! nat slot) \<and>
          (\<forall>item \<in> set (mQueue c). item_mSlot item \<noteq> slot) \<and>
          mBufferState (mSlots c ! nat slot) \<noteq> ACQUIRED \<and>
          \<not> mNeedsCleanupOnRelease (mSlots c ! nat slot) \<longrightarrow>
            cr_status (releaseBuffer c slot frameNumber releaseFence eglDisplay eglFence)
              = BAD_VALUE \<and>
            cr_core (releaseBuffer c slot frameNumber releaseFence eglDisplay eglFence) = c)"
proof -
  from assms have il: "nat slot < length (mSlots c)"
    by simp
  have scan: "list_ex (\<lambda>current. item_mSlot current = slot) (mQueue c)
                = (\<exists>item \<in> set (mQueue c). item_mSlot item = slot)"
    by (simp add: list_ex_iff)
  from assms il show ?thesis
    unfolding releaseBuffer_def scan by auto
qed

theorem release_by_cases_witness:
  "cr_status (releaseBuffer exLost 5 1 (Some (FenceFd 4)) 11 12) = NO_ERROR \<and>
   mBufferState (mSlots (cr_core (releaseBuffer exLost 5 1 (Some (FenceFd 4)) 11 12)) ! 5) = FREE \<and>
   mFence (mSlots (cr_core (releaseBuffer exLost 5 1 (Some (FenceFd 4)) 11 12)) ! 5)
     = Some (FenceFd 4) \<and>
   mFreeBuffers (cr_core (releaseBuffer exLost 5 1 (Some (FenceFd 4)) 11 12)) = [5] \<and>
   cr_status (releaseBuffer exLost 5 2 (Some (FenceFd 4)) 11 12) = STALE_BUFFER_SLOT \<and>
   cr_core (releaseBuffer exLost 5 2 (Some (FenceFd 4)) 11 12) = exLost"
proof -
  have r: "(0::int) \<le> 5" "(5::int) < int NUM_BUFFER_SLOTS"
    by (simp_all add: NUM_BUFFER_SLOTS_def)
  have f: "Some (FenceFd 4) \<noteq> None"
    by simp
  have n: "length (mSlots exLost) = NUM_BUFFER_SLOTS"
    by code_simp
  have fn: "mFrameNumber (mSlots exLost ! nat 5) = 1"
    by code_simp
  have q: "\<forall>item \<in> set (mQueue exLost). item_mSlot item \<noteq> 5"
    by code_simp
  have a: "mBufferState (mSlots exLost ! nat 5) = ACQUIRED"
    by code_simp
  have fb: "mFreeBuffers exLost = []"
    by code_simp
  from release_by_cases [OF r f n, of 1 11 12] fn [symmetric] q a
  have ok: "cr_status (releaseBuffer exLost 5 1 (Some (FenceFd 4)) 11 12) = NO_ERROR \<and>
     cr_core (releaseBuffer exLost 5 1 (Some (FenceFd 4)) 11 12) =
       exLost\<lparr>mSlots := (mSlots exLost)[nat 5 := (mSlots exLost ! nat 5)
                  \<lparr>mEglDisplay := 11, mBufferState := FREE,
                   mEglFence := 12, mFence := Some (FenceFd 4)\<rparr>],
              mFreeBuffers := mFreeBuffers exLost @ [5]\<rparr> \<and>
     mSlots (cr_core (releaseBuffer exLost 5 1 (Some (FenceFd 4)) 11 12)) ! nat 5 =
       (mSlots exLost ! nat 5)\<lparr>mEglDisplay := 11, mBufferState := FREE,
                                mEglFence := 12, mFence := Some (FenceFd 4)\<rparr>"
    by blast
  from ok have 1: "cr_status (releaseBuffer exLost 5 1 (Some (FenceFd 4)) 11 12) = NO_ERROR"
    by (rule conjunct1)
  from ok [THEN conjunct2, THEN conjunct2]
  have 2: "mBufferState (mSlots (cr_core (releaseBuffer exLost 5 1 (Some (FenceFd 4)) 11 12)) ! 5)
             = FREE \<and>
           mFence (mSlots (cr_core (releaseBuffer exLost 5 1 (Some (FenceFd 4)) 11 12)) ! 5)
             = Some (FenceFd 4)"
    by simp
  from ok [THEN conjunct2, THEN conjunct1]
  have 3: "mFreeBuffers (cr_core (releaseBuffer exLost 5 1 (Some (FenceFd 4)) 11 12)) = [5]"
    by (simp add: fb)
  have "(2 :: uint64_t) \<noteq> mFrameNumber (mSlots exLost ! nat 5)"
    unfolding fn by simp
  with release_by_cases [OF r f n, of 2 11 12]
  have 4: "cr_status (releaseBuffer exLost 5 2 (Some (FenceFd 4)) 11 12) = STALE_BUFFER_SLOT \<and>
     cr_core (releaseBuffer exLost 5 2 (Some (FenceFd 4)) 11 12) = exLost"
    by blast
  from 1 2 3 4 show ?thesis
    by simp
qed

text \<open>
  C9, as amended. \<open>attachBuffer\<close> with an \<open>outSlot\<close> that is not null and a buffer whose
  generation number differs from the queue's returns \<open>BAD_VALUE\<close> and changes no state
  provided the number of ACQUIRED slots is below \<open>mMaxAcquiredBufferCount + 1\<close>; at or above
  that cap it returns \<open>INVALID_OPERATION\<close>, also without a change: the acquired-count check
  comes before the generation check.
\<close>

theorem attach_generation_mismatch:
  assumes "generationNumber b \<noteq> mGenerationNumber c"
  shows "at_core (attachBuffer c False (Some b)) = c \<and>
         at_outSlot (attachBuffer c False (Some b)) = None \<and>
         at_status (attachBuffer c False (Some b)) =
           (if numAcquiredBuffers c \<ge> mMaxAcquiredBufferCount c + 1
            then INVALID_OPERATION else BAD_VALUE)"
  using assms by (simp add: attachBuffer_def)

theorem attach_generation_mismatch_witness:
  "at_core (attachBuffer exLost False (Some \<lparr>handle = 90, generationNumber = 9\<rparr>)) = exLost \<and>
   at_status (attachBuffer exLost False (Some \<lparr>handle = 90, generationNumber = 9\<rparr>)) = BAD_VALUE"
proof -
  have g: "generationNumber \<lparr>handle = 90, generationNumber = 9\<rparr> \<noteq> mGenerationNumber exLost"
    by code_simp
  have n: "\<not> numAcquiredBuffers exLost \<ge> mMaxAcquiredBufferCount exLost + 1"
    by code_simp
  from attach_generation_mismatch [OF g] n show ?thesis
    by simp
qed

text \<open>
  C9 as it was stated fails when the cap is reached: the cap check of lines 258 to 263
  returns before the generation check of lines 265 to 270 is made.
\<close>

theorem attach_cap_checked_before_generation:
  "generationNumber \<lparr>handle = 90, generationNumber = 9\<rparr> \<noteq> mGenerationNumber exFull \<and>
   numAcquiredBuffers exFull = 2 \<and>
   mMaxAcquiredBufferCount exFull = 1 \<and>
   at_status (attachBuffer exFull False (Some \<lparr>handle = 90, generationNumber = 9\<rparr>))
     = INVALID_OPERATION"
  by code_simp

section \<open>Claims about the abandoned flag\<close>

text \<open>
  \<open>acquireBuffer\<close>, \<open>releaseBuffer\<close> and \<open>attachBuffer\<close> do not read \<open>mIsAbandoned\<close>: run
  on a core with the flag changed, they do the same and leave the flag as they found it.
\<close>

lemma stillTracking_abandoned:
  "stillTracking (c\<lparr>mIsAbandoned := a\<rparr>) item = stillTracking c item"
  by (simp add: stillTracking_def)

lemma numAcquiredBuffers_abandoned:
  "numAcquiredBuffers (c\<lparr>mIsAbandoned := a\<rparr>) = numAcquiredBuffers c"
  by (simp add: numAcquiredBuffers_def)

lemma dropFront_abandoned:
  "dropFront (c\<lparr>mIsAbandoned := a\<rparr>, l, n) =
     ((fst (dropFront (c, l, n)))\<lparr>mIsAbandoned := a\<rparr>, snd (dropFront (c, l, n)))"
  by (simp add: dropFront_def stillTracking_abandoned)

lemma dropLoop_abandoned:
  "dropLoop e m ((fst st)\<lparr>mIsAbandoned := a\<rparr>, snd st) =
     ((fst (dropLoop e m st))\<lparr>mIsAbandoned := a\<rparr>, snd (dropLoop e m st))"
proof (rule dropLoop_rule [where Q = "\<lambda>st r.
         dropLoop e m ((fst st)\<lparr>mIsAbandoned := a\<rparr>, snd st) =
           ((fst r)\<lparr>mIsAbandoned := a\<rparr>, snd r)"])
  fix st :: "BufferQueueCore \<times> listener option \<times> nat"
  assume "\<not> spec_dropCondition e m (mQueue (fst st))"
  then show "dropLoop e m ((fst st)\<lparr>mIsAbandoned := a\<rparr>, snd st) =
           ((fst st)\<lparr>mIsAbandoned := a\<rparr>, snd st)"
    using dropLoop_unfold [of e m "((fst st)\<lparr>mIsAbandoned := a\<rparr>, snd st)"] by simp
next
  fix st r :: "BufferQueueCore \<times> listener option \<times> nat"
  assume d: "spec_dropCondition e m (mQueue (fst st))"
    and r: "dropLoop e m ((fst (dropFront st))\<lparr>mIsAbandoned := a\<rparr>, snd (dropFront st)) =
           ((fst r)\<lparr>mIsAbandoned := a\<rparr>, snd r)"
  have "dropFront ((fst st)\<lparr>mIsAbandoned := a\<rparr>, snd st) =
          ((fst (dropFront st))\<lparr>mIsAbandoned := a\<rparr>, snd (dropFront st))"
    using dropFront_abandoned [where c = "fst st" and a = a and l = "fst (snd st)"
                                 and n = "snd (snd st)"] by simp
  with d r show "dropLoop e m ((fst st)\<lparr>mIsAbandoned := a\<rparr>, snd st) =
           ((fst r)\<lparr>mIsAbandoned := a\<rparr>, snd r)"
    using dropLoop_unfold [of e m "((fst st)\<lparr>mIsAbandoned := a\<rparr>, snd st)"] by simp
qed

lemma dropPhase_abandoned:
  "dropPhase (c\<lparr>mIsAbandoned := a\<rparr>) e m =
     ((fst (dropPhase c e m))\<lparr>mIsAbandoned := a\<rparr>, snd (dropPhase c e m))"
  using dropLoop_abandoned [where e = e and m = m and st = "(c, None, 0)" and a = a]
  by (simp add: dropPhase_def)

lemma acquireFront_abandoned:
  "acquireFront (c\<lparr>mIsAbandoned := a\<rparr>) l n =
     (acquireFront c l n)\<lparr>ar_core := (ar_core (acquireFront c l n))\<lparr>mIsAbandoned := a\<rparr>\<rparr>"
  by (simp add: acquireFront_def Let_def stillTracking_abandoned)

lemma acquireBuffer_abandoned:
  "acquireBuffer (c\<lparr>mIsAbandoned := a\<rparr>) e m =
     (acquireBuffer c e m)\<lparr>ar_core := (ar_core (acquireBuffer c e m))\<lparr>mIsAbandoned := a\<rparr>\<rparr>"
proof -
  obtain c1 l n where dp: "dropPhase c e m = (c1, l, n)"
    by (cases "dropPhase c e m") auto
  then have dpa: "dropPhase (c\<lparr>mIsAbandoned := a\<rparr>) e m = (c1\<lparr>mIsAbandoned := a\<rparr>, l, n)"
    by (simp add: dropPhase_abandoned)
  show ?thesis
    by (simp add: acquireBuffer_def numAcquiredBuffers_abandoned dp dpa acquireFail_def
                  acquireFront_abandoned)
qed

lemma releaseBuffer_abandoned:
  "releaseBuffer (c\<lparr>mIsAbandoned := a\<rparr>) slot frameNumber releaseFence eglDisplay eglFence =
     (releaseBuffer c slot frameNumber releaseFence eglDisplay eglFence)
       \<lparr>cr_core := (cr_core (releaseBuffer c slot frameNumber releaseFence eglDisplay eglFence))
                      \<lparr>mIsAbandoned := a\<rparr>\<rparr>"
  by (simp add: releaseBuffer_def)

lemma attachBuffer_abandoned:
  "attachBuffer (c\<lparr>mIsAbandoned := a\<rparr>) outSlotIsNull buffer =
     (attachBuffer c outSlotIsNull buffer)
       \<lparr>at_core := (at_core (attachBuffer c outSlotIsNull buffer))\<lparr>mIsAbandoned := a\<rparr>\<rparr>"
  by (simp add: attachBuffer_def findFreeSlot_def numAcquiredBuffers_abandoned
           split: option.splits)


text \<open>
  C2, as amended. Once the abandoned flag is set, \<open>detachBuffer\<close>, \<open>connect\<close> (with a
  listener that is not null) and \<open>getReleasedBuffers\<close> (with an output that is not null)
  fail with \<open>NO_INIT\<close> and change nothing. \<open>acquireBuffer\<close>, \<open>releaseBuffer\<close>,
  \<open>attachBuffer\<close> and the setters \<open>setDefaultBufferSize\<close>, \<open>disableAsyncBuffer\<close>,
  \<open>setMaxAcquiredBufferCount\<close>, \<open>setDefaultBufferFormat\<close>, \<open>setDefaultBufferDataSpace\<close>,
  \<open>setConsumerUsageBits\<close> and \<open>setTransformHint\<close> never return \<open>NO_INIT\<close>, and
  \<open>acquireBuffer\<close>, \<open>releaseBuffer\<close> and \<open>attachBuffer\<close> do on an abandoned core what they
  do on the same core with the flag unset, and leave the flag set.
\<close>

theorem abandoned_checked_by_detach_connect_mask_only:
  assumes "mIsAbandoned c"
  shows "detachBuffer freeBufferLocked c slot = (NO_INIT, c) \<and>
         (consumerListener \<noteq> None \<longrightarrow>
            connect c consumerListener controlledByApp = (NO_INIT, c)) \<and>
         getReleasedBuffers c False = (NO_INIT, None) \<and>
         ar_status (acquireBuffer c expectedPresent maxFrameNumber) \<noteq> NO_INIT \<and>
         cr_status (releaseBuffer c slot frameNumber releaseFence eglDisplay eglFence) \<noteq> NO_INIT \<and>
         at_status (attachBuffer c outSlotIsNull buffer) \<noteq> NO_INIT \<and>
         fst (setDefaultBufferSize c width height) \<noteq> NO_INIT \<and>
         fst (disableAsyncBuffer c) \<noteq> NO_INIT \<and>
         fst (setMaxAcquiredBufferCount c maxAcquiredBuffers) \<noteq> NO_INIT \<and>
         fst (setDefaultBufferFormat c defaultFormat) \<noteq> NO_INIT \<and>
         fst (setDefaultBufferDataSpace c defaultDataSpace) \<noteq> NO_INIT \<and>
         fst (setConsumerUsageBits c usage) \<noteq> NO_INIT \<and>
         fst (setTransformHint c hint) \<noteq> NO_INIT \<and>
         acquireBuffer c expectedPresent maxFrameNumber =
           (acquireBuffer (c\<lparr>mIsAbandoned := False\<rparr>) expectedPresent maxFrameNumber)
             \<lparr>ar_core := (ar_core (acquireBuffer (c\<lparr>mIsAbandoned := False\<rparr>)
                                      expectedPresent maxFrameNumber))\<lparr>mIsAbandoned := True\<rparr>\<rparr> \<and>
         releaseBuffer c slot frameNumber releaseFence eglDisplay eglFence =
           (releaseBuffer (c\<lparr>mIsAbandoned := False\<rparr>) slot frameNumber releaseFence eglDisplay eglFence)
             \<lparr>cr_core := (cr_core (releaseBuffer (c\<lparr>mIsAbandoned := False\<rparr>) slot frameNumber
                                      releaseFence eglDisplay eglFence))\<lparr>mIsAbandoned := True\<rparr>\<rparr> \<and>
         attachBuffer c outSlotIsNull buffer =
           (attachBuffer (c\<lparr>mIsAbandoned := False\<rparr>) outSlotIsNull buffer)
             \<lparr>at_core := (at_core (attachBuffer (c\<lparr>mIsAbandoned := False\<rparr>) outSlotIsNull buffer))
                            \<lparr>mIsAbandoned := True\<rparr>\<rparr>"
proof -
  from assms have twin: "c = (c\<lparr>mIsAbandoned := False\<rparr>)\<lparr>mIsAbandoned := True\<rparr>"
    by simp
  have same_acq: "acquireBuffer c expectedPresent maxFrameNumber =
           (acquireBuffer (c\<lparr>mIsAbandoned := False\<rparr>) expectedPresent maxFrameNumber)
             \<lparr>ar_core := (ar_core (acquireBuffer (c\<lparr>mIsAbandoned := False\<rparr>)
                                      expectedPresent maxFrameNumber))\<lparr>mIsAbandoned := True\<rparr>\<rparr>"
    using acquireBuffer_abandoned [where c = "c\<lparr>mIsAbandoned := False\<rparr>" and a = True
            and e = expectedPresent and m = maxFrameNumber] twin
    by simp
  have same_rel: "releaseBuffer c slot frameNumber releaseFence eglDisplay eglFence =
           (releaseBuffer (c\<lparr>mIsAbandoned := False\<rparr>) slot frameNumber releaseFence eglDisplay eglFence)
             \<lparr>cr_core := (cr_core (releaseBuffer (c\<lparr>mIsAbandoned := False\<rparr>) slot frameNumber
                                      releaseFence eglDisplay eglFence))\<lparr>mIsAbandoned := True\<rparr>\<rparr>"
    using releaseBuffer_abandoned [where c = "c\<lparr>mIsAbandoned := False\<rparr>" and a = True
            and slot = slot and frameNumber = frameNumber and releaseFence = releaseFence
            and eglDisplay = eglDisplay and eglFence = eglFence] twin
    by simp
  have same_att: "attachBuffer c outSlotIsNull buffer =
           (attachBuffer (c\<lparr>mIsAbandoned := False\<rparr>) outSlotIsNull buffer)
             \<lparr>at_core := (at_core (attachBuffer (c\<lparr>mIsAbandoned := False\<rparr>) outSlotIsNull buffer))
                            \<lparr>mIsAbandoned := True\<rparr>\<rparr>"
    using attachBuffer_abandoned [where c = "c\<lparr>mIsAbandoned := False\<rparr>" and a = True
            and outSlotIsNull = outSlotIsNull and buffer = buffer] twin
    by simp
  have acq: "ar_status (acquireBuffer c expectedPresent maxFrameNumber) \<noteq> NO_INIT"
    by (simp add: acquireBuffer_def acquireFail_def acquireFront_def Let_def
             split: prod.splits)
  have rel: "cr_status (releaseBuffer c slot frameNumber releaseFence eglDisplay eglFence) \<noteq> NO_INIT"
    by (simp add: releaseBuffer_def)
  have att: "at_status (attachBuffer c outSlotIsNull buffer) \<noteq> NO_INIT"
    by (simp add: attachBuffer_def split: option.splits prod.splits)
  have checked: "detachBuffer freeBufferLocked c slot = (NO_INIT, c) \<and>
         (consumerListener \<noteq> None \<longrightarrow>
            connect c consumerListener controlledByApp = (NO_INIT, c)) \<and>
         getReleasedBuffers c False = (NO_INIT, None)"
    using assms by (simp add: detachBuffer_def connect_def getReleasedBuffers_def)
  have setters: "fst (setDefaultBufferSize c width height) \<noteq> NO_INIT \<and>
         fst (disableAsyncBuffer c) \<noteq> NO_INIT \<and>
         fst (setMaxAcquiredBufferCount c maxAcquiredBuffers) \<noteq> NO_INIT \<and>
         fst (setDefaultBufferFormat c defaultFormat) \<noteq> NO_INIT \<and>
         fst (setDefaultBufferDataSpace c defaultDataSpace) \<noteq> NO_INIT \<and>
         fst (setConsumerUsageBits c usage) \<noteq> NO_INIT \<and>
         fst (setTransformHint c hint) \<noteq> NO_INIT"
    by (simp add: setDefaultBufferSize_def disableAsyncBuffer_def setMaxAcquiredBufferCount_def
                  setDefaultBufferFormat_def setDefaultBufferDataSpace_def
                  setConsumerUsageBits_def setTransformHint_def)
  from acq rel att checked setters same_acq same_rel same_att show ?thesis
    by blast
qed

theorem abandoned_checked_by_detach_connect_mask_only_witness:
  "mIsAbandoned exAbandoned \<and>
   detachBuffer (\<lambda>slot c. c) exAbandoned 0 = (NO_INIT, exAbandoned) \<and>
   connect exAbandoned (Some 8) False = (NO_INIT, exAbandoned) \<and>
   getReleasedBuffers exAbandoned False = (NO_INIT, None) \<and>
   ar_status (acquireBuffer exAbandoned 0 0) \<noteq> NO_INIT"
proof -
  have a: "mIsAbandoned exAbandoned"
    by code_simp
  have l: "Some (8::nat) \<noteq> None"
    by simp
  note th = abandoned_checked_by_detach_connect_mask_only
         [OF a, where freeBufferLocked = "\<lambda>slot c. c" and slot = 0
            and consumerListener = "Some 8" and controlledByApp = False
            and expectedPresent = 0 and maxFrameNumber = 0]
  note detach = th [THEN conjunct1]
  note conn = th [THEN conjunct2, THEN conjunct1]
  note mask = th [THEN conjunct2, THEN conjunct2, THEN conjunct1]
  note acq = th [THEN conjunct2, THEN conjunct2, THEN conjunct2, THEN conjunct1]
  from conn l have "connect exAbandoned (Some 8) False = (NO_INIT, exAbandoned)"
    by (rule mp)
  with a detach mask acq show ?thesis
    by (simp only: simp_thms)
qed

text \<open>
  C2 as it was stated fails for the operations that do not test \<open>mIsAbandoned\<close>: on an
  abandoned core \<open>acquireBuffer\<close> answers \<open>NO_BUFFER_AVAILABLE\<close>, \<open>releaseBuffer\<close> answers
  \<open>BAD_VALUE\<close>, \<open>attachBuffer\<close> attaches, and the setters set.
\<close>

theorem abandoned_acquire_release_attach_not_gated:
  "mIsAbandoned exAbandoned \<and>
   ar_status (acquireBuffer exAbandoned 0 0) = NO_BUFFER_AVAILABLE \<and>
   cr_status (releaseBuffer exAbandoned 0 0 (Some NO_FENCE) 0 0) = BAD_VALUE \<and>
   at_status (attachBuffer exAbandoned False (Some \<lparr>handle = 90, generationNumber = 0\<rparr>))
     = NO_ERROR \<and>
   mBufferState
     (mSlots (at_core (attachBuffer exAbandoned False (Some \<lparr>handle = 90, generationNumber = 0\<rparr>)))
        ! 0) = ACQUIRED \<and>
   fst (setTransformHint exAbandoned 3) = NO_ERROR \<and>
   mTransformHint (snd (setTransformHint exAbandoned 3)) = 3"
  by code_simp

section \<open>Claims about the layer's callbacks\<close>

lemma afterWaits_Cons: "afterWaits (w # ws) L = afterWaits ws (snd w L)"
  by (simp add: afterWaits_def)

lemma waitInOrder_blocked:
  "(\<forall>k \<le> length env. fn \<noteq> mLastFrameNumberReceived (afterWaits (take k env) L) + 1)
   \<Longrightarrow> waitInOrder fn env L n = None"
proof (induction env arbitrary: L n)
  case Nil
  then show ?case
    by (simp add: afterWaits_def)
next
  case (Cons w ws)
  from Cons.prems have "fn \<noteq> mLastFrameNumberReceived (afterWaits (take 0 (w # ws)) L) + 1"
    by blast
  then have here: "fn \<noteq> mLastFrameNumberReceived L + 1"
    by (simp add: afterWaits_def)
  have "\<forall>k \<le> length ws. fn \<noteq> mLastFrameNumberReceived (afterWaits (take k ws) (snd w L)) + 1"
  proof (intro allI impI)
    fix k
    assume "k \<le> length ws"
    then have "Suc k \<le> length (w # ws)"
      by simp
    with Cons.prems
    have "fn \<noteq> mLastFrameNumberReceived (afterWaits (take (Suc k) (w # ws)) L) + 1"
      by blast
    then show "fn \<noteq> mLastFrameNumberReceived (afterWaits (take k ws) (snd w L)) + 1"
      by (simp add: afterWaits_Cons)
  qed
  then have "waitInOrder fn ws (snd w L) (if fst w \<noteq> NO_ERROR then n + 1 else n) = None"
    by (rule Cons.IH)
  with here show ?case
    by simp
qed

lemma waitInOrder_exits:
  "k \<le> length env \<Longrightarrow>
   fn = mLastFrameNumberReceived (afterWaits (take k env) L) + 1 \<Longrightarrow>
   (\<forall>j < k. fn \<noteq> mLastFrameNumberReceived (afterWaits (take j env) L) + 1) \<Longrightarrow>
   waitInOrder fn env L n = Some (afterWaits (take k env) L, n + timeouts (take k env))"
proof (induction env arbitrary: L n k)
  case Nil
  then show ?case
    by (simp add: afterWaits_def timeouts_def)
next
  case (Cons w ws)
  show ?case
  proof (cases k)
    case 0
    with Cons.prems show ?thesis
      by (simp add: afterWaits_def timeouts_def)
  next
    case (Suc k')
    with Cons.prems have "fn \<noteq> mLastFrameNumberReceived (afterWaits (take 0 (w # ws)) L) + 1"
      by blast
    then have here: "fn \<noteq> mLastFrameNumberReceived L + 1"
      by (simp add: afterWaits_def)
    from Cons.prems Suc have len: "k' \<le> length ws"
      by simp
    from Cons.prems Suc
    have now: "fn = mLastFrameNumberReceived (afterWaits (take k' ws) (snd w L)) + 1"
      by (simp add: afterWaits_Cons)
    have before: "\<forall>j < k'. fn \<noteq> mLastFrameNumberReceived (afterWaits (take j ws) (snd w L)) + 1"
    proof (intro allI impI)
      fix j
      assume "j < k'"
      then have "Suc j < k"
        using Suc by simp
      with Cons.prems
      have "fn \<noteq> mLastFrameNumberReceived (afterWaits (take (Suc j) (w # ws)) L) + 1"
        by blast
      then show "fn \<noteq> mLastFrameNumberReceived (afterWaits (take j ws) (snd w L)) + 1"
        by (simp add: afterWaits_Cons)
    qed
    from Cons.IH [OF len now before, of "if fst w \<noteq> NO_ERROR then n + 1 else n"] here
    show ?thesis
      by (simp add: Suc afterWaits_Cons timeouts_def)
  qed
qed

lemma afterWaits_untouched:
  "afterWaits (replicate n (r, \<lambda>L. L)) L = L"
  by (induction n) (simp_all add: afterWaits_def)

lemma waitInOrder_untouched:
  assumes "fn \<noteq> mLastFrameNumberReceived L + 1"
  shows "waitInOrder fn (replicate n (r, \<lambda>L. L)) L m = None"
proof (rule waitInOrder_blocked)
  show "\<forall>k \<le> length (replicate n (r, \<lambda>L. L)).
          fn \<noteq> mLastFrameNumberReceived (afterWaits (take k (replicate n (r, \<lambda>L. L))) L) + 1"
    using assms by (simp add: afterWaits_untouched)
qed

lemma onFrameAvailable_exits:
  assumes "k \<le> length env"
    and "item_mFrameNumber item =
           mLastFrameNumberReceived (afterWaits (take k env) (resetTracker item L)) + 1"
    and "\<forall>j < k. item_mFrameNumber item \<noteq>
           mLastFrameNumberReceived (afterWaits (take j env) (resetTracker item L)) + 1"
  shows "onFrameAvailable item env L =
        Some ((afterWaits (take k env) (resetTracker item L))
                \<lparr>mQueueItems := mQueueItems (afterWaits (take k env) (resetTracker item L)) @ [item],
                 mQueuedFrames := mQueuedFrames (afterWaits (take k env) (resetTracker item L)) + 1,
                 mLastFrameNumberReceived := item_mFrameNumber item\<rparr>,
              timeouts (take k env))"
proof -
  from waitInOrder_exits [OF assms, of 0]
  have "waitInOrder (item_mFrameNumber item) env (resetTracker item L) 0 =
          Some (afterWaits (take k env) (resetTracker item L), timeouts (take k env))"
    by simp
  then show ?thesis
    by (simp add: onFrameAvailable_def)
qed

lemma onFrameReplaced_exits:
  assumes "k \<le> length env"
    and "item_mFrameNumber item = mLastFrameNumberReceived (afterWaits (take k env) L) + 1"
    and "\<forall>j < k. item_mFrameNumber item \<noteq>
           mLastFrameNumberReceived (afterWaits (take j env) L) + 1"
  shows "onFrameReplaced item env L =
        (if mQueueItems (afterWaits (take k env) L) = []
         then Some (afterWaits (take k env) L, timeouts (take k env))
         else Some ((afterWaits (take k env) L)
                \<lparr>mQueueItems := (mQueueItems (afterWaits (take k env) L))
                    [length (mQueueItems (afterWaits (take k env) L)) - 1 := item],
                 mLastFrameNumberReceived := item_mFrameNumber item\<rparr>,
              timeouts (take k env)))"
proof -
  from waitInOrder_exits [OF assms, of 0]
  have "waitInOrder (item_mFrameNumber item) env L 0 =
          Some (afterWaits (take k env) L, timeouts (take k env))"
    by simp
  then show ?thesis
    by (simp add: onFrameReplaced_def)
qed

text \<open>
  C8, as amended. When \<open>onFrameAvailable\<close> or \<open>onFrameReplaced\<close> receives an item whose
  frame number is not \<open>mLastFrameNumberReceived + 1\<close> (after the reset that frame number 1
  causes in \<open>onFrameAvailable\<close>), it waits on the layer's condition in rounds of up to
  500 ms, logs an error for each round that times out, and tests the order again after
  every round; it goes on only once \<open>mLastFrameNumberReceived + 1\<close> is the item's frame
  number. Then \<open>onFrameAvailable\<close> appends the item to the shadow queue, increments
  \<open>mQueuedFrames\<close> and records the frame number, and \<open>onFrameReplaced\<close> overwrites the last
  entry of a non-empty shadow queue. As long as the order is not met the call does not
  return: if the predecessor's notification never arrives, the item is never appended,
  however many waits time out.
\<close>

theorem frame_callbacks_wait_until_in_order:
  "((\<forall>k \<le> length env. item_mFrameNumber item \<noteq>
        mLastFrameNumberReceived (afterWaits (take k env) (resetTracker item L)) + 1) \<longrightarrow>
      onFrameAvailable item env L = None) \<and>
   (\<forall>k \<le> length env.
      item_mFrameNumber item =
        mLastFrameNumberReceived (afterWaits (take k env) (resetTracker item L)) + 1 \<and>
      (\<forall>j < k. item_mFrameNumber item \<noteq>
        mLastFrameNumberReceived (afterWaits (take j env) (resetTracker item L)) + 1) \<longrightarrow>
      onFrameAvailable item env L =
        Some ((afterWaits (take k env) (resetTracker item L))
                \<lparr>mQueueItems := mQueueItems (afterWaits (take k env) (resetTracker item L)) @ [item],
                 mQueuedFrames := mQueuedFrames (afterWaits (take k env) (resetTracker item L)) + 1,
                 mLastFrameNumberReceived := item_mFrameNumber item\<rparr>,
              timeouts (take k env))) \<and>
   (item_mFrameNumber item \<noteq> mLastFrameNumberReceived (resetTracker item L) + 1 \<longrightarrow>
      onFrameAvailable item (replicate n (TIMED_OUT, \<lambda>L. L)) L = None) \<and>
   ((\<forall>k \<le> length env. item_mFrameNumber item \<noteq>
        mLastFrameNumberReceived (afterWaits (take k env) L) + 1) \<longrightarrow>
      onFrameReplaced item env L = None) \<and>
   (\<forall>k \<le> length env.
      item_mFrameNumber item = mLastFrameNumberReceived (afterWaits (take k env) L) + 1 \<and>
      (\<forall>j < k. item_mFrameNumber item \<noteq>
        mLastFrameNumberReceived (afterWaits (take j env) L) + 1) \<longrightarrow>
      onFrameReplaced item env L =
        (if mQueueItems (afterWaits (take k env) L) = []
         then Some (afterWaits (take k env) L, timeouts (take k env))
         else Some ((afterWaits (take k env) L)
                \<lparr>mQueueItems := (mQueueItems (afterWaits (take k env) L))
                    [length (mQueueItems (afterWaits (take k env) L)) - 1 := item],
                 mLastFrameNumberReceived := item_mFrameNumber item\<rparr>,
              timeouts (take k env)))) \<and>
   (item_mFrameNumber item \<noteq> mLastFrameNumberReceived L + 1 \<longrightarrow>
      onFrameReplaced item (replicate n (TIMED_OUT, \<lambda>L. L)) L = None)"
proof -
  have a1: "(\<forall>k \<le> length env. item_mFrameNumber item \<noteq>
        mLastFrameNumberReceived (afterWaits (take k env) (resetTracker item L)) + 1) \<longrightarrow>
      onFrameAvailable item env L = None"
    by (simp add: onFrameAvailable_def waitInOrder_blocked)
  have a2: "\<forall>k \<le> length env.
      item_mFrameNumber item =
        mLastFrameNumberReceived (afterWaits (take k env) (resetTracker item L)) + 1 \<and>
      (\<forall>j < k. item_mFrameNumber item \<noteq>
        mLastFrameNumberReceived (afterWaits (take j env) (resetTracker item L)) + 1) \<longrightarrow>
      onFrameAvailable item env L =
        Some ((afterWaits (take k env) (resetTracker item L))
                \<lparr>mQueueItems := mQueueItems (afterWaits (take k env) (resetTracker item L)) @ [item],
                 mQueuedFrames := mQueuedFrames (afterWaits (take k env) (resetTracker item L)) + 1,
                 mLastFrameNumberReceived := item_mFrameNumber item\<rparr>,
              timeouts (take k env))"
    using onFrameAvailable_exits [of _ env item L] by blast
  have a3: "item_mFrameNumber item \<noteq> mLastFrameNumberReceived (resetTracker item L) + 1 \<longrightarrow>
      onFrameAvailable item (replicate n (TIMED_OUT, \<lambda>L. L)) L = None"
    by (simp add: onFrameAvailable_def waitInOrder_untouched)
  have r1: "(\<forall>k \<le> length env. item_mFrameNumber item \<noteq>
        mLastFrameNumberReceived (afterWaits (take k env) L) + 1) \<longrightarrow>
      onFrameReplaced item env L = None"
    by (simp add: onFrameReplaced_def waitInOrder_blocked)
  have r2: "\<forall>k \<le> length env.
      item_mFrameNumber item = mLastFrameNumberReceived (afterWaits (take k env) L) + 1 \<and>
      (\<forall>j < k. item_mFrameNumber item \<noteq>
        mLastFrameNumberReceived (afterWaits (take j env) L) + 1) \<longrightarrow>
      onFrameReplaced item env L =
        (if mQueueItems (afterWaits (take k env) L) = []
         then Some (afterWaits (take k env) L, timeouts (take k env))
         else Some ((afterWaits (take k env) L)
                \<lparr>mQueueItems := (mQueueItems (afterWaits (take k env) L))
                    [length (mQueueItems (afterWaits (take k env) L)) - 1 := item],
                 mLastFrameNumberReceived := item_mFrameNumber item\<rparr>,
              timeouts (take k env)))"
    using onFrameReplaced_exits [of _ env item L] by blast
  have r3: "item_mFrameNumber item \<noteq> mLastFrameNumberReceived L + 1 \<longrightarrow>
      onFrameReplaced item (replicate n (TIMED_OUT, \<lambda>L. L)) L = None"
    by (simp add: onFrameReplaced_def waitInOrder_untouched)
  from a1 a2 a3 r1 r2 r3 show ?thesis
    by blast
qed

theorem frame_callbacks_wait_until_in_order_witness:
  "onFrameAvailable exFrame8 [timedOut, frameRecorded 7] exLayer =
     Some (\<lparr>mQueueItems = [exFrame8], mQueuedFrames = 1, mLastFrameNumberReceived = 8\<rparr>, 1) \<and>
   onFrameAvailable exFrame8 (replicate 4 (TIMED_OUT, \<lambda>L. L)) exLayer = None"
proof -
  have k: "(2::nat) \<le> length [timedOut, frameRecorded 7]"
    by simp
  have now: "item_mFrameNumber exFrame8 =
      mLastFrameNumberReceived
        (afterWaits (take 2 [timedOut, frameRecorded 7]) (resetTracker exFrame8 exLayer)) + 1"
    by code_simp
  have j0: "item_mFrameNumber exFrame8 \<noteq>
      mLastFrameNumberReceived
        (afterWaits (take 0 [timedOut, frameRecorded 7]) (resetTracker exFrame8 exLayer)) + 1"
    by code_simp
  have j1: "item_mFrameNumber exFrame8 \<noteq>
      mLastFrameNumberReceived
        (afterWaits (take 1 [timedOut, frameRecorded 7]) (resetTracker exFrame8 exLayer)) + 1"
    by code_simp
  have before: "\<forall>j < 2. item_mFrameNumber exFrame8 \<noteq>
      mLastFrameNumberReceived
        (afterWaits (take j [timedOut, frameRecorded 7]) (resetTracker exFrame8 exLayer)) + 1"
  proof (intro allI impI)
    fix j :: nat
    assume "j < 2"
    then have "j = 0 \<or> j = 1"
      by auto
    with j0 j1 show "item_mFrameNumber exFrame8 \<noteq>
      mLastFrameNumberReceived
        (afterWaits (take j [timedOut, frameRecorded 7]) (resetTracker exFrame8 exLayer)) + 1"
      by auto
  qed
  have res: "(afterWaits (take 2 [timedOut, frameRecorded 7]) (resetTracker exFrame8 exLayer))
                \<lparr>mQueueItems := mQueueItems (afterWaits (take 2 [timedOut, frameRecorded 7])
                                   (resetTracker exFrame8 exLayer)) @ [exFrame8],
                 mQueuedFrames := mQueuedFrames (afterWaits (take 2 [timedOut, frameRecorded 7])
                                   (resetTracker exFrame8 exLayer)) + 1,
                 mLastFrameNumberReceived := item_mFrameNumber exFrame8\<rparr> =
             \<lparr>mQueueItems = [exFrame8], mQueuedFrames = 1, mLastFrameNumberReceived = 8\<rparr>"
    by code_simp
  have logged: "timeouts (take 2 [timedOut, frameRecorded 7]) = 1"
    by code_simp
  have first: "item_mFrameNumber exFrame8 \<noteq>
      mLastFrameNumberReceived (resetTracker exFrame8 exLayer) + 1"
    by code_simp
  note th = frame_callbacks_wait_until_in_order
              [of "[timedOut, frameRecorded 7]" exFrame8 exLayer 4]
  from th [THEN conjunct2, THEN conjunct1] k now before
  have 1: "onFrameAvailable exFrame8 [timedOut, frameRecorded 7] exLayer =
     Some (\<lparr>mQueueItems = [exFrame8], mQueuedFrames = 1, mLastFrameNumberReceived = 8\<rparr>, 1)"
    unfolding res [symmetric] logged [symmetric] by blast
  from th [THEN conjunct2, THEN conjunct2, THEN conjunct1] first
  have 2: "onFrameAvailable exFrame8 (replicate 4 (TIMED_OUT, \<lambda>L. L)) exLayer = None"
    by blast
  from 1 2 show ?thesis
    by simp
qed

text \<open>
  C8 as it was stated fails: the wait is the body of a \<open>while\<close> loop (lines 700 to 706), so
  a wait that times out is followed by the same test and the next wait. With frame 5
  accepted and frame 8 notified, the call is still waiting after one round of 500 ms has
  timed out, and after three; the item has not been appended. It is appended once frame 7
  has been recorded.
\<close>

theorem timeout_does_not_proceed:
  "item_mFrameNumber exFrame8 = 8 \<and>
   mLastFrameNumberReceived exLayer = 5 \<and>
   onFrameAvailable exFrame8 [timedOut] exLayer = None \<and>
   onFrameAvailable exFrame8 [timedOut, timedOut, timedOut] exLayer = None \<and>
   onFrameReplaced exFrame8 [timedOut, timedOut, timedOut] exLayer = None \<and>
   onFrameAvailable exFrame8 [timedOut, timedOut, timedOut, frameRecorded 7] exLayer =
     Some (\<lparr>mQueueItems = [exFrame8], mQueuedFrames = 1, mLastFrameNumberReceived = 8\<rparr>, 3)"
  by code_simp

end
